theory Spec2Isabelle
  imports Complex_Main
begin

section \<open>Python values\<close>

text \<open>
  The module is Python 2 (\<^verbatim>\<open>unicode\<close>, \<^verbatim>\<open>dict.items()[0]\<close>). Every \<^verbatim>\<open>raise\<close> of the
  source is a value of \<open>exn\<close>; a function that can raise returns \<open>exn + 'a\<close>.
\<close>

datatype exn =
    ValueError | KeyError | TypeError | AttributeError | IndexError
  | IOError | OSError | UnicodeEncodeError | UnicodeDecodeError

text \<open>
  What \<^verbatim>\<open>json.load\<close> returns. A \<^verbatim>\<open>dict\<close> is the list of its items in the order
  \<^verbatim>\<open>dict.items()\<close> gives them; \<open>JNull\<close> is \<^verbatim>\<open>None\<close>. A text is the list of its code
  points, each below 256. A float is read as the real it denotes: the module does no
  arithmetic on the floats of a descriptor.
\<close>

datatype json =
    JNull | JBool bool | JInt int | JFloat real | JStr string
  | JArr "json list" | JObj "(string \<times> json) list"

subsection \<open>Text methods\<close>

definition is_ascii :: "char \<Rightarrow> bool" where
  "is_ascii c = (\<not> digit7 c)"

text \<open>\<^verbatim>\<open>unicode.isspace\<close> on the code points below 256.\<close>

definition is_space :: "char \<Rightarrow> bool" where
  "is_space c = (let n = (of_char c :: nat) in
     (9 \<le> n \<and> n \<le> 13) \<or> (28 \<le> n \<and> n \<le> 32) \<or> n = 133 \<or> n = 160)"

text \<open>\<^verbatim>\<open>s.strip()\<close>\<close>

definition strip :: "string \<Rightarrow> string" where
  "strip s = rev (dropWhile is_space (rev (dropWhile is_space s)))"

text \<open>\<^verbatim>\<open>s.lower()\<close>: A-Z and the capital letters of Latin-1 move up by 32.\<close>

definition lower_char :: "char \<Rightarrow> char" where
  "lower_char c = (let n = (of_char c :: nat) in
     if (65 \<le> n \<and> n \<le> 90) \<or> (192 \<le> n \<and> n \<le> 222 \<and> n \<noteq> 215)
     then char_of (n + 32) else c)"

definition lower :: "string \<Rightarrow> string" where
  "lower s = map lower_char s"

text \<open>\<^verbatim>\<open>s.replace(u" & ", u" and ")\<close>: left to right, occurrences do not overlap.\<close>

fun replace_amp :: "string \<Rightarrow> string" where
  "replace_amp (a # b # c # rest) =
     (if a = CHR '' '' \<and> b = CHR ''&'' \<and> c = CHR '' ''
      then '' and '' @ replace_amp rest
      else a # replace_amp (b # c # rest))"
| "replace_amp s = s"

section \<open>Files and the clock\<close>

text \<open>
  A cache file name as the adapters build it: a \<^verbatim>\<open>str\<close>, a \<^verbatim>\<open>unicode\<close>, or the default
  \<^verbatim>\<open>None\<close> of \<^verbatim>\<open>isCacheUpdateNeeded\<close>.
\<close>

datatype filename = FNone | FStr string | FUnicode string

fun path_of :: "filename \<Rightarrow> string option" where
  "path_of FNone = None"
| "path_of (FStr p) = Some p"
| "path_of (FUnicode p) = Some p"

text \<open>
  \<^verbatim>\<open>"... {0} ...".format(name)\<close> on a \<^verbatim>\<open>str\<close> template encodes a \<^verbatim>\<open>unicode\<close> argument
  as ASCII and raises \<^verbatim>\<open>UnicodeEncodeError\<close> when it cannot.
\<close>

fun format_ok :: "filename \<Rightarrow> bool" where
  "format_ok (FUnicode s) = list_all is_ascii s"
| "format_ok f = True"

definition format_name :: "filename \<Rightarrow> exn + unit" where
  "format_name f = (if format_ok f then Inr () else Inl UnicodeEncodeError)"

text \<open>
  A directory, or a file with its modification time in whole seconds and the value its
  content parses to (\<open>None\<close>: \<^verbatim>\<open>json.load\<close> raises on it).
\<close>

datatype node = Dir int | File int "json option"

fun mtime :: "node \<Rightarrow> int" where
  "mtime (Dir t) = t"
| "mtime (File t c) = t"

fun is_dir :: "node option \<Rightarrow> bool" where
  "is_dir (Some (Dir t)) = True"
| "is_dir n = False"

text \<open>
  The state the module reads and writes: the file system, and the clock, whose \<open>n\<close>-th
  reading by \<^verbatim>\<open>time.time()\<close> is \<open>clock n\<close> (seconds, read as a real). The last part
  is the time zone of the process: \<open>strftime_s t\<close> is what
  \<^verbatim>\<open>int(datetime.datetime.fromtimestamp(t).strftime("%s"))\<close> gives for the time stamp
  \<open>t\<close>, which goes to local time and back. It is \<open>t\<close> itself in a zone without daylight
  saving, and an hour less than \<open>t\<close> for a \<open>t\<close> in the hour that a zone with daylight
  saving repeats.
\<close>

record world =
  fs :: "string \<Rightarrow> node option"
  ticks :: nat
  clock :: "nat \<Rightarrow> real"
  strftime_s :: "int \<Rightarrow> int"

definition time_time :: "world \<Rightarrow> real \<times> world" where
  "time_time w = (clock w (ticks w), w\<lparr>ticks := Suc (ticks w)\<rparr>)"

text \<open>\<^verbatim>\<open>os.path.getmtime\<close>; \<open>None\<close> when it raises.\<close>

definition getmtime :: "world \<Rightarrow> filename \<Rightarrow> int option" where
  "getmtime w f = (case path_of f of
       None \<Rightarrow> None
     | Some p \<Rightarrow> map_option mtime (fs w p))"

text \<open>
  \<^verbatim>\<open>modificationDate\<close>: the modification time through \<^verbatim>\<open>fromtimestamp\<close> and
  \<^verbatim>\<open>strftime("%s")\<close>; the bare \<^verbatim>\<open>except\<close> formats the file name into the log line and
  returns \<open>-1\<close>.
\<close>

definition modificationDate :: "world \<Rightarrow> filename \<Rightarrow> exn + int" where
  "modificationDate w filename = (case getmtime w filename of
       Some t \<Rightarrow> Inr (strftime_s w t)
     | None \<Rightarrow> (case format_name filename of
           Inl e \<Rightarrow> Inl e
         | Inr u \<Rightarrow> Inr (- 1)))"

section \<open>The cache staleness check\<close>

definition default_frequency :: int where
  "default_frequency = 360"

text \<open>
  The \<^verbatim>\<open>except Exception\<close> handler of \<^verbatim>\<open>isCacheUpdateNeeded\<close>: it formats the file name
  into the log line and has no \<^verbatim>\<open>return\<close>, so the call yields \<^verbatim>\<open>None\<close>.
\<close>

definition cache_check_handler :: "filename \<Rightarrow> exn + bool option" where
  "cache_check_handler f = (case format_name f of
       Inl e \<Rightarrow> Inl e
     | Inr u \<Rightarrow> Inr None)"

text \<open>
  The result is \<open>Inr (Some b)\<close> for \<^verbatim>\<open>return b\<close>, \<open>Inr None\<close> for the \<^verbatim>\<open>None\<close> of the
  handler and \<open>Inl e\<close> when the call raises. \<^verbatim>\<open>lastModified/60\<close> divides two \<^verbatim>\<open>int\<close>s,
  so it rounds down; \<^verbatim>\<open>time.time()/60\<close> is a float division.
\<close>

definition isCacheUpdateNeeded ::
  "filename \<Rightarrow> int \<Rightarrow> world \<Rightarrow> (exn + bool option) \<times> world" where
  "isCacheUpdateNeeded cacheFilename frequency w =
     (case modificationDate w cacheFilename of
        Inl e \<Rightarrow> (cache_check_handler cacheFilename, w)
      | Inr lastModified \<Rightarrow>
          if lastModified = - 1 then (Inr (Some True), w)
          else
            (let (t1, w1) = time_time w in
             case format_name cacheFilename of
               Inl e \<Rightarrow> (cache_check_handler cacheFilename, w1)
             | Inr u \<Rightarrow>
                 (let (t2, w2) = time_time w1;
                      difference = \<lceil>t2 / 60 - real_of_int (lastModified div 60)\<rceil>
                  in (Inr (Some (difference \<ge> frequency)), w2))))"

section \<open>Writing the cache\<close>

text \<open>\<^verbatim>\<open>os.path.dirname\<close> and the two-argument \<^verbatim>\<open>os.path.join\<close> of \<^verbatim>\<open>posixpath\<close>.\<close>

definition dirname :: "string \<Rightarrow> string" where
  "dirname p =
     (let head = rev (dropWhile (\<lambda>c. c \<noteq> CHR ''/'') (rev p)) in
      if head \<noteq> [] \<and> \<not> list_all (\<lambda>c. c = CHR ''/'') head
      then rev (dropWhile (\<lambda>c. c = CHR ''/'') (rev head))
      else head)"

definition path_join :: "string \<Rightarrow> string \<Rightarrow> string" where
  "path_join a b =
     (if b \<noteq> [] \<and> hd b = CHR ''/'' then b
      else if a = [] \<or> last a = CHR ''/'' then a @ b
      else a @ ''/'' @ b)"

text \<open>
  \<^verbatim>\<open>open(name, 'w')\<close> followed by \<^verbatim>\<open>write(json.dumps(data))\<close>: the file gets the
  current time and replaces whatever was there. It raises when the name is \<^verbatim>\<open>None\<close> or
  empty, names a directory, or lies in a directory that does not exist (the empty
  directory name is the working directory).
\<close>

definition open_write :: "filename \<Rightarrow> json \<Rightarrow> world \<Rightarrow> exn + world" where
  "open_write f data w = (case path_of f of
       None \<Rightarrow> Inl TypeError
     | Some p \<Rightarrow>
         if p \<noteq> [] \<and> \<not> is_dir (fs w p) \<and> (dirname p = [] \<or> is_dir (fs w (dirname p)))
         then Inr (w\<lparr>fs := (fs w)(p \<mapsto> File \<lfloor>clock w (ticks w)\<rfloor> (Some data))\<rparr>)
         else Inl IOError)"

text \<open>
  The handler of \<^verbatim>\<open>updateCacheFile\<close> formats the file name and the exception into the
  log line. \<open>data\<close> is the value whose \<^verbatim>\<open>json.dumps\<close> the caller passes.
\<close>

definition updateCacheFile ::
  "filename \<Rightarrow> json \<Rightarrow> int \<Rightarrow> world \<Rightarrow> (exn + unit) \<times> world" where
  "updateCacheFile cacheFilename data frequency w =
     (case isCacheUpdateNeeded cacheFilename frequency w of
        (Inl e, w1) \<Rightarrow> (format_name cacheFilename, w1)
      | (Inr r, w1) \<Rightarrow>
          (case format_name cacheFilename of
             Inl e \<Rightarrow> (format_name cacheFilename, w1)
           | Inr u \<Rightarrow>
               if r = Some True
               then (case open_write cacheFilename data w1 of
                       Inl e \<Rightarrow> (format_name cacheFilename, w1)
                     | Inr w2 \<Rightarrow> (Inr (), w2))
               else (Inr (), w1)))"

text \<open>
  How the body of a record loop ends: it goes on with a value, it runs \<^verbatim>\<open>continue\<close>
  (the record is skipped), or an exception leaves the loop for the handler around it.
\<close>

datatype 'a flow = Proceed 'a | Continue | Abort exn

definition path_exists :: "world \<Rightarrow> string \<Rightarrow> bool" where
  "path_exists w p = (p \<noteq> [] \<and> fs w p \<noteq> None)"

text \<open>The directories \<^verbatim>\<open>os.makedirs(d)\<close> creates when missing: \<open>d\<close> and the ones above it.\<close>

definition ancestors :: "string \<Rightarrow> string list" where
  "ancestors d =
     [take n d. n \<leftarrow> [1..<length d], d ! n = CHR ''/'', d ! (n - 1) \<noteq> CHR ''/''] @ [d]"

text \<open>
  \<^verbatim>\<open>os.makedirs(d)\<close> raises \<^verbatim>\<open>OSError\<close> when \<open>d\<close> is there already or cannot be created;
  \<open>mkfail d\<close> stands for the failures the file system decides (another process made the
  directory since the caller looked, no permission).
\<close>

definition makedirs :: "(string \<Rightarrow> bool) \<Rightarrow> string \<Rightarrow> world \<Rightarrow> exn + world" where
  "makedirs mkfail d w =
     (if d = [] \<or> fs w d \<noteq> None \<or> mkfail d then Inl OSError
      else Inr (w\<lparr>fs := (\<lambda>q. if q \<in> set (ancestors d) \<and> fs w q = None
                              then Some (Dir \<lfloor>clock w (ticks w)\<rfloor>) else fs w q)\<rparr>))"

text \<open>
  The adapters' guard before any fetch:
  \<^verbatim>\<open>if not os.path.exists(os.path.dirname(cacheFileName)):\<close>
  \<^verbatim>\<open>    try: os.makedirs(...)\<close>
  \<^verbatim>\<open>    except OSError as exc: continue\<close>
\<close>

definition ensure_cache_dir :: "(string \<Rightarrow> bool) \<Rightarrow> string \<Rightarrow> world \<Rightarrow> unit flow \<times> world" where
  "ensure_cache_dir mkfail p w =
     (if path_exists w (dirname p) then (Proceed (), w)
      else (case makedirs mkfail (dirname p) w of
              Inl e \<Rightarrow> (Continue, w)
            | Inr w' \<Rightarrow> (Proceed (), w')))"

section \<open>Reading descriptors\<close>

text \<open>Sequencing of calls that can raise: the first exception ends the block.\<close>

fun and_then :: "exn + 'a \<Rightarrow> ('a \<Rightarrow> exn + 'b) \<Rightarrow> exn + 'b" where
  "and_then (Inl e) f = Inl e"
| "and_then (Inr x) f = f x"

fun traverse :: "('a \<Rightarrow> exn + 'b) \<Rightarrow> 'a list \<Rightarrow> exn + 'b list" where
  "traverse f [] = Inr []"
| "traverse f (x # xs) =
     and_then (f x) (\<lambda>y. and_then (traverse f xs) (\<lambda>ys. Inr (y # ys)))"

text \<open>\<^verbatim>\<open>d.get(k, default)\<close>: only a \<^verbatim>\<open>dict\<close> has the method.\<close>

fun py_get :: "json \<Rightarrow> string \<Rightarrow> json \<Rightarrow> exn + json" where
  "py_get (JObj kvs) k dflt = Inr (case map_of kvs k of None \<Rightarrow> dflt | Some v \<Rightarrow> v)"
| "py_get d k dflt = Inl AttributeError"

text \<open>\<^verbatim>\<open>d[k]\<close> with a text \<open>k\<close>.\<close>

fun subscript :: "json \<Rightarrow> string \<Rightarrow> exn + json" where
  "subscript (JObj kvs) k = (case map_of kvs k of None \<Rightarrow> Inl KeyError | Some v \<Rightarrow> Inr v)"
| "subscript d k = Inl TypeError"

text \<open>A text method (\<^verbatim>\<open>lower\<close>, \<^verbatim>\<open>strip\<close>) called on a value: only a text has it.\<close>

fun as_text :: "json \<Rightarrow> exn + string" where
  "as_text (JStr s) = Inr s"
| "as_text v = Inl AttributeError"

text \<open>\<^verbatim>\<open>for x in v\<close>: a list gives its elements, a text its characters, a dict its keys.\<close>

fun py_iter :: "json \<Rightarrow> exn + json list" where
  "py_iter (JArr xs) = Inr xs"
| "py_iter (JStr s) = Inr (map (\<lambda>c. JStr [c]) s)"
| "py_iter (JObj kvs) = Inr (map (\<lambda>kv. JStr (fst kv)) kvs)"
| "py_iter v = Inl TypeError"

text \<open>\<^verbatim>\<open>len(v)\<close>\<close>

fun py_len :: "json \<Rightarrow> exn + nat" where
  "py_len (JArr xs) = Inr (length xs)"
| "py_len (JStr s) = Inr (length s)"
| "py_len (JObj kvs) = Inr (length kvs)"
| "py_len v = Inl TypeError"

text \<open>The truth value of a value in a condition.\<close>

fun truthy :: "json \<Rightarrow> bool" where
  "truthy JNull = False"
| "truthy (JBool b) = b"
| "truthy (JInt i) = (i \<noteq> 0)"
| "truthy (JFloat r) = (r \<noteq> 0)"
| "truthy (JStr s) = (s \<noteq> [])"
| "truthy (JArr xs) = (xs \<noteq> [])"
| "truthy (JObj kvs) = (kvs \<noteq> [])"

text \<open>\<^verbatim>\<open>pat in s\<close> on two texts.\<close>

fun is_infix :: "string \<Rightarrow> string \<Rightarrow> bool" where
  "is_infix pat [] = (pat = [])"
| "is_infix pat (c # cs) = (take (length pat) (c # cs) = pat \<or> is_infix pat cs)"

text \<open>\<^verbatim>\<open>k in v\<close> with a text \<open>k\<close>.\<close>

fun py_in :: "string \<Rightarrow> json \<Rightarrow> exn + bool" where
  "py_in k (JObj kvs) = Inr (map_of kvs k \<noteq> None)"
| "py_in k (JArr xs) = Inr (JStr k \<in> set xs)"
| "py_in k (JStr s) = Inr (is_infix k s)"
| "py_in k v = Inl TypeError"

text \<open>
  \<^verbatim>\<open>int(s)\<close> on a text: white space around an optional sign and decimal digits.
  \<open>None\<close> is \<^verbatim>\<open>ValueError\<close>.
\<close>

definition is_digit :: "char \<Rightarrow> bool" where
  "is_digit c = (let n = (of_char c :: nat) in 48 \<le> n \<and> n \<le> 57)"

definition digits_val :: "string \<Rightarrow> int" where
  "digits_val ds = foldl (\<lambda>acc c. 10 * acc + (of_char c - 48)) 0 ds"

definition py_int :: "string \<Rightarrow> int option" where
  "py_int s =
     (let t = strip s;
          neg = (t \<noteq> [] \<and> hd t = CHR ''-'');
          ds = (if t \<noteq> [] \<and> (hd t = CHR ''-'' \<or> hd t = CHR ''+'') then tl t else t)
      in if ds \<noteq> [] \<and> list_all is_digit ds
         then Some (if neg then - digits_val ds else digits_val ds)
         else None)"

section \<open>Compiling the filters\<close>

text \<open>A rule is the dict \<^verbatim>\<open>{u"key":..., u"val":..., u"exclude":...}\<close>.\<close>

record rule =
  key :: string
  val :: json
  exclude :: bool

text \<open>\<^verbatim>\<open>key, val = exclude.items()[0]\<close>\<close>

fun first_item :: "json \<Rightarrow> exn + (string \<times> json)" where
  "first_item (JObj []) = Inl IndexError"
| "first_item (JObj (kv # kvs)) = Inr kv"
| "first_item v = Inl AttributeError"

text \<open>
  The loop \<^verbatim>\<open>for exclude in filterItem.get("exclude", [])\<close> and its twin for
  \<^verbatim>\<open>"include"\<close>: one rule from the first pair of each element.
\<close>

definition rules_of :: "json \<Rightarrow> string \<Rightarrow> bool \<Rightarrow> exn + rule list" where
  "rules_of filterItem name ex =
     and_then (py_get filterItem name (JArr [])) (\<lambda>v.
     and_then (py_iter v) (\<lambda>es.
     traverse (\<lambda>e. and_then (first_item e) (\<lambda>kv.
       Inr \<lparr>key = fst kv, val = snd kv, exclude = ex\<rparr>)) es))"

definition excludes_includes :: "json \<Rightarrow> exn + rule list" where
  "excludes_includes filterItem =
     and_then (rules_of filterItem ''exclude'' True) (\<lambda>exs.
     and_then (rules_of filterItem ''include'' False) (\<lambda>ins. Inr (exs @ ins)))"

text \<open>The cleaning of a name in \<^verbatim>\<open>readLastfmArtists\<close> and \<^verbatim>\<open>readTraktTV\<close>.\<close>

definition clean_name :: "json \<Rightarrow> exn + string" where
  "clean_name v = and_then (as_text v) (\<lambda>s. Inr (replace_amp (strip (lower s))))"

text \<open>The body of the artist loop of \<^verbatim>\<open>readLastfmArtists\<close>.\<close>

definition lastfm_ruleList :: "json \<Rightarrow> json \<Rightarrow> exn + rule list" where
  "lastfm_ruleList filterItem artist =
     and_then (clean_name artist) (\<lambda>a.
     and_then (excludes_includes filterItem) (\<lambda>rs.
     Inr (\<lparr>key = ''artist'', val = JStr a, exclude = False\<rparr> # rs)))"

text \<open>
  The two nested loops: filters outside, subjects inside. \<open>body\<close> gives the rule list of
  one pair, or \<open>None\<close> when the pair is skipped by \<^verbatim>\<open>continue\<close>. The subjects are
  iterated once for each filter.
\<close>

definition compile_filters ::
  "(json \<Rightarrow> json \<Rightarrow> exn + rule list option) \<Rightarrow> json \<Rightarrow> json \<Rightarrow> exn + rule list list" where
  "compile_filters body majorFeedFilters subjects =
     and_then (py_iter majorFeedFilters) (\<lambda>fis.
     and_then (traverse (\<lambda>fi. and_then (py_iter subjects) (\<lambda>items.
                  and_then (traverse (body fi) items) (\<lambda>rs. Inr (List.map_filter id rs)))) fis)
       (\<lambda>rss. Inr (concat rss)))"

definition lastfm_filters :: "json \<Rightarrow> json \<Rightarrow> exn + rule list list" where
  "lastfm_filters majorFeedFilters artists =
     compile_filters (\<lambda>fi a. and_then (lastfm_ruleList fi a) (\<lambda>r. Inr (Some r)))
       majorFeedFilters artists"

definition titleMatchMethod :: "json \<Rightarrow> string" where
  "titleMatchMethod like = (if truthy like then ''titleLike'' else ''title'')"

text \<open>
  The body of the item loop of \<^verbatim>\<open>readTraktTV\<close>. \<^verbatim>\<open>year\<close> is \<^verbatim>\<open>None\<close> when the record
  starts and is assigned by the movie branch only, so it is \<^verbatim>\<open>None\<close> in the show branch.
\<close>

definition trakt_ruleList :: "string \<Rightarrow> json \<Rightarrow> json \<Rightarrow> json \<Rightarrow> exn + rule list option" where
  "trakt_ruleList feedType like filterItem item =
     and_then (py_in ''show'' item) (\<lambda>has_show.
       if \<not> has_show \<and> feedType = ''tv'' then Inr None
       else and_then (py_in ''movie'' item) (\<lambda>has_movie.
         if \<not> has_movie \<and> feedType = ''movie'' then Inr None
         else if has_show \<and> feedType = ''tv'' then
           and_then (subscript item ''show'') (\<lambda>it.
           and_then (subscript it ''title'') (\<lambda>t.
           and_then (clean_name t) (\<lambda>title.
           and_then (excludes_includes filterItem) (\<lambda>rs.
           Inr (Some (\<lparr>key = titleMatchMethod like, val = JStr title, exclude = False\<rparr>
                      # rs))))))
         else if has_movie \<and> feedType = ''movie'' then
           and_then (subscript item ''movie'') (\<lambda>it.
           and_then (subscript it ''title'') (\<lambda>t.
           and_then (clean_name t) (\<lambda>title.
           and_then (subscript it ''year'') (\<lambda>year.
           and_then (excludes_includes filterItem) (\<lambda>rs.
           Inr (Some (\<lparr>key = titleMatchMethod like, val = JStr title, exclude = False\<rparr>
                      # (if year \<noteq> JNull
                         then [\<lparr>key = ''year'', val = year, exclude = False\<rparr>] else [])
                      @ rs)))))))
         else Inr None))"

definition trakt_filters :: "string \<Rightarrow> json \<Rightarrow> json \<Rightarrow> json \<Rightarrow> exn + rule list list" where
  "trakt_filters feedType like majorFeedFilters traktListResults =
     compile_filters (trakt_ruleList feedType like) majorFeedFilters traktListResults"

text \<open>
  The body of the author loop of \<^verbatim>\<open>readGoodreads\<close>: the first rule holds \<^verbatim>\<open>title\<close>, which
  is \<^verbatim>\<open>None\<close> since the record started; the loop variable is not used.
\<close>

definition goodreads_ruleList :: "json \<Rightarrow> json \<Rightarrow> json \<Rightarrow> exn + rule list option" where
  "goodreads_ruleList like filterItem item =
     and_then (excludes_includes filterItem) (\<lambda>rs.
     Inr (Some (\<lparr>key = titleMatchMethod like, val = JNull, exclude = False\<rparr> # rs)))"

definition goodreads_filters :: "json \<Rightarrow> json \<Rightarrow> json \<Rightarrow> exn + rule list list" where
  "goodreads_filters like majorFeedFilters goodreadsListResults =
     compile_filters (goodreads_ruleList like) majorFeedFilters goodreadsListResults"

text \<open>\<^verbatim>\<open>readRSS\<close> has one loop, over the filters.\<close>

definition rss_filters :: "json \<Rightarrow> exn + rule list list" where
  "rss_filters feedFilters =
     and_then (py_iter feedFilters) (\<lambda>fis. traverse excludes_includes fis)"

text \<open>
  The cleaning of an author name when \<^verbatim>\<open>readGoodreads\<close> reads the reply: trimmed, and
  \<^verbatim>\<open>" & "\<close> replaced; it is not lower-cased.
\<close>

definition goodreads_clean :: "string \<Rightarrow> string" where
  "goodreads_clean author = replace_amp (strip author)"

section \<open>The fields of a descriptor record\<close>

record 'f minorFeed =
  url :: string
  minTime :: int
  minRatio :: 'f
  comparison :: string

record 'f majorFeed =
  feedName :: string
  feedType :: string
  feedDestination :: string
  minorFeeds :: "'f minorFeed list"
  feedFilters :: "rule list list"

text \<open>
  \<^verbatim>\<open>except (A, B):\<close> catches the instances of the classes named;
  \<^verbatim>\<open>UnicodeEncodeError\<close> and \<^verbatim>\<open>UnicodeDecodeError\<close> are subclasses of \<^verbatim>\<open>ValueError\<close>.
\<close>

definition isinstance :: "exn \<Rightarrow> exn \<Rightarrow> bool" where
  "isinstance e c =
     (e = c \<or> (c = ValueError \<and> (e = UnicodeEncodeError \<or> e = UnicodeDecodeError)))"

text \<open>
  \<^verbatim>\<open>try: ... except (classes): continue\<close>: an exception of another class leaves the record
  loop for the handler around it.
\<close>

definition try_continue :: "exn list \<Rightarrow> exn + 'a \<Rightarrow> 'a flow" where
  "try_continue classes r =
     (case r of
        Inr x \<Rightarrow> Proceed x
      | Inl e \<Rightarrow> if list_ex (isinstance e) classes then Continue else Abort e)"

text \<open>\<^verbatim>\<open>try: ... except Exception: continue\<close>\<close>

definition try_continue_all :: "exn + 'a \<Rightarrow> 'a flow" where
  "try_continue_all r = (case r of Inr x \<Rightarrow> Proceed x | Inl e \<Rightarrow> Continue)"

fun flow_bind :: "'a flow \<Rightarrow> ('a \<Rightarrow> 'b flow) \<Rightarrow> 'b flow" where
  "flow_bind (Proceed x) f = f x"
| "flow_bind Continue f = Continue"
| "flow_bind (Abort e) f = Abort e"

text \<open>
  The test that opens every record loop: \<^verbatim>\<open>d.get(k, None) is None or ...\<close>, left to
  right.
\<close>

fun missing_any :: "json \<Rightarrow> string list \<Rightarrow> exn + bool" where
  "missing_any d [] = Inr False"
| "missing_any d (k # ks) =
     and_then (py_get d k JNull) (\<lambda>v. if v = JNull then Inr True else missing_any d ks)"

definition required_parts :: "json \<Rightarrow> string list \<Rightarrow> unit flow" where
  "required_parts d ks =
     (case missing_any d ks of
        Inl e \<Rightarrow> Abort e
      | Inr missing \<Rightarrow> if missing then Continue else Proceed ())"

text \<open>\<^verbatim>\<open>d.get(k)\<close> on a record that passed the test, a dict.\<close>

definition field :: "json \<Rightarrow> string \<Rightarrow> json \<Rightarrow> json" where
  "field d k dflt = (case py_get d k dflt of Inr v \<Rightarrow> v | Inl e \<Rightarrow> dflt)"

definition get_feedName :: "json \<Rightarrow> string flow" where
  "get_feedName d =
     try_continue [ValueError, KeyError]
       (and_then (py_get d ''list_name'' (JStr [])) (\<lambda>v.
        and_then (as_text v) (\<lambda>s.
          let feedName = strip (lower s)
          in if feedName = [] then Inl ValueError else Inr feedName)))"

definition get_feedType :: "json \<Rightarrow> string flow" where
  "get_feedType d =
     try_continue [ValueError, KeyError]
       (and_then (py_get d ''type'' (JStr ''none'')) (\<lambda>v.
        and_then (as_text v) (\<lambda>s. Inr (strip (lower s)))))"

definition get_feedDestination :: "json \<Rightarrow> string flow" where
  "get_feedDestination d =
     try_continue [ValueError, KeyError]
       (and_then (py_get d ''feedDestination'' (JStr [])) (\<lambda>v.
        and_then (as_text v) (\<lambda>s. Inr (strip s))))"

text \<open>\<^verbatim>\<open>minorFeed.get(k, default).strip()\<close>\<close>

definition text_field :: "json \<Rightarrow> string \<Rightarrow> string \<Rightarrow> exn + string" where
  "text_field d k dflt =
     and_then (py_get d k (JStr dflt)) (\<lambda>v. and_then (as_text v) (\<lambda>s. Inr (strip s)))"

definition or_ValueError :: "'a option \<Rightarrow> exn + 'a" where
  "or_ValueError r = (case r of None \<Rightarrow> Inl ValueError | Some x \<Rightarrow> Inr x)"

text \<open>
  The body of the minor feed loop. \<open>py_float\<close> is \<^verbatim>\<open>float\<close> on a text, \<open>None\<close> when it
  raises \<^verbatim>\<open>ValueError\<close>; the floats are of any type \<open>'f\<close>.
\<close>

definition parse_minorFeed :: "(string \<Rightarrow> 'f option) \<Rightarrow> json \<Rightarrow> exn + 'f minorFeed" where
  "parse_minorFeed py_float minorFeed =
     and_then (text_field minorFeed ''url'' []) (\<lambda>u.
     and_then (text_field minorFeed ''minTime'' ''0'') (\<lambda>t.
     and_then (or_ValueError (py_int t)) (\<lambda>i.
     and_then (text_field minorFeed ''minRatio'' ''0.0'') (\<lambda>r.
     and_then (or_ValueError (py_float r)) (\<lambda>x.
     and_then (text_field minorFeed ''comparison'' ''or'') (\<lambda>c.
     Inr \<lparr>url = u, minTime = i, minRatio = x, comparison = c\<rparr>))))))"

definition collect_minorFeeds :: "(string \<Rightarrow> 'f option) \<Rightarrow> json \<Rightarrow> 'f minorFeed list flow" where
  "collect_minorFeeds py_float d =
     try_continue [ValueError, KeyError, TypeError]
       (and_then (py_get d ''minorFeeds'' (JArr [])) (\<lambda>v.
          if v = JNull then Inr []
          else and_then (py_len v) (\<lambda>n.
            if 0 < n then and_then (py_iter v) (traverse (parse_minorFeed py_float))
            else Inr [])))"

text \<open>The type, the destination and the minor feeds, in the order the adapters read them.\<close>

definition descriptor_rest ::
  "(string \<Rightarrow> 'f option) \<Rightarrow> json \<Rightarrow> string \<Rightarrow> 'f majorFeed flow" where
  "descriptor_rest py_float d name =
     flow_bind (get_feedType d) (\<lambda>t.
     flow_bind (get_feedDestination d) (\<lambda>dest.
     flow_bind (collect_minorFeeds py_float d) (\<lambda>mfs.
     Proceed \<lparr>feedName = name, feedType = t, feedDestination = dest, minorFeeds = mfs,
              feedFilters = []\<rparr>)))"

section \<open>The cached and the fetched subjects\<close>

text \<open>
  The block \<^verbatim>\<open>if useCache:\<close>: the log line, \<^verbatim>\<open>open\<close> and \<^verbatim>\<open>json.load\<close>; any exception
  skips the record.
\<close>

definition read_cache :: "filename \<Rightarrow> world \<Rightarrow> json flow" where
  "read_cache f w =
     (case format_name f of
        Inl e \<Rightarrow> Continue
      | Inr u \<Rightarrow>
          (case path_of f of
             None \<Rightarrow> Continue
           | Some p \<Rightarrow>
               (case fs w p of
                  Some (File t (Some j)) \<Rightarrow> Proceed j
                | n \<Rightarrow> Continue)))"

text \<open>
  What \<^verbatim>\<open>requests.get\<close> gives: an exception, or a status with the value \<^verbatim>\<open>r.json()\<close>
  returns (\<open>None\<close>: \<^verbatim>\<open>r.json()\<close> raises \<^verbatim>\<open>ValueError\<close>).
\<close>

datatype response = ConnError | Response int "json option"

text \<open>\<^verbatim>\<open>int(v)\<close>\<close>

fun py_int_of :: "json \<Rightarrow> exn + int" where
  "py_int_of (JInt i) = Inr i"
| "py_int_of (JBool b) = Inr (if b then 1 else 0)"
| "py_int_of (JFloat r) = Inr (if 0 \<le> r then \<lfloor>r\<rfloor> else \<lceil>r\<rceil>)"
| "py_int_of (JStr s) = or_ValueError (py_int s)"
| "py_int_of v = Inl TypeError"

text \<open>\<^verbatim>\<open>v[:]\<close>, handed to \<^verbatim>\<open>list.extend\<close>\<close>

fun py_slice :: "json \<Rightarrow> exn + json list" where
  "py_slice (JArr xs) = Inr xs"
| "py_slice (JStr s) = Inr (map (\<lambda>c. JStr [c]) s)"
| "py_slice v = Inl TypeError"

text \<open>The two lines of the page loop that read a reply.\<close>

definition parse_page :: "json \<Rightarrow> exn + (int \<times> json list)" where
  "parse_page reply =
     and_then (subscript reply ''artists'') (\<lambda>a.
     and_then (subscript a ''@attr'') (\<lambda>attr.
     and_then (subscript attr ''totalPages'') (\<lambda>tp.
     and_then (py_int_of tp) (\<lambda>maxPages.
     and_then (subscript a ''artist'') (\<lambda>ar.
     and_then (py_slice ar) (\<lambda>arts. Inr (maxPages, arts)))))))"

text \<open>
  \<^verbatim>\<open>while currentPage <= maxPages\<close>: the server names the number of pages in every reply,
  so the loop need not end; \<open>None\<close> is a run that needs more than \<open>fuel\<close> turns. The result
  is the last \<^verbatim>\<open>httpResponse\<close> with the replies.
\<close>

fun fetch_pages ::
  "nat \<Rightarrow> (int \<Rightarrow> response) \<Rightarrow> int \<Rightarrow> int \<Rightarrow> int \<Rightarrow> json list
   \<Rightarrow> (exn + int \<times> json list) option" where
  "fetch_pages 0 get httpResponse currentPage maxPages replies =
     (if currentPage \<le> maxPages then None else Some (Inr (httpResponse, replies)))"
| "fetch_pages (Suc fuel) get httpResponse currentPage maxPages replies =
     (if currentPage \<le> maxPages then
        (case get currentPage of
           ConnError \<Rightarrow> Some (Inr (- 1, []))
         | Response status body \<Rightarrow>
             if status = 200 then
               (case body of
                  None \<Rightarrow> Some (Inl ValueError)
                | Some reply \<Rightarrow>
                    (case parse_page reply of
                       Inl e \<Rightarrow> Some (Inl e)
                     | Inr (pages, arts) \<Rightarrow>
                         fetch_pages fuel get status (currentPage + 1) pages (replies @ arts)))
             else Some (Inr (status, [])))
      else Some (Inr (httpResponse, replies)))"

text \<open>
  After the fetch: \<^verbatim>\<open>if httpResponse == 200: updateCacheFile(...)\<close>,
  \<^verbatim>\<open>else: useCache = True\<close>, then the cache block.
\<close>

definition store_or_cache :: "filename \<Rightarrow> int \<Rightarrow> json \<Rightarrow> world \<Rightarrow> json flow \<times> world" where
  "store_or_cache f httpResponse subjects w =
     (if httpResponse = 200 then
        (case updateCacheFile f subjects default_frequency w of
           (Inl e, w') \<Rightarrow> (Abort e, w')
         | (Inr u, w') \<Rightarrow> (Proceed subjects, w'))
      else (read_cache f w, w))"

text \<open>
  From \<^verbatim>\<open>if not isCacheUpdateNeeded(...)\<close> to the end of the cache block in
  \<^verbatim>\<open>readLastfmArtists\<close>. \<open>lastfm_get key user page\<close> is the request for one page.
\<close>

definition lastfm_subjects ::
  "nat \<Rightarrow> (json \<Rightarrow> json \<Rightarrow> int \<Rightarrow> response) \<Rightarrow> json \<Rightarrow> filename \<Rightarrow> world
   \<Rightarrow> (json flow \<times> world) option" where
  "lastfm_subjects fuel lastfm_get d f w =
     (case isCacheUpdateNeeded f default_frequency w of
        (Inl e, w1) \<Rightarrow> Some (Abort e, w1)
      | (Inr r, w1) \<Rightarrow>
          if r \<noteq> Some True then Some (read_cache f w1, w1)
          else
            (case fetch_pages fuel (lastfm_get (field d ''api_key'' JNull)
                                      (field d ''username'' JNull)) (- 1) 1 2 [] of
               None \<Rightarrow> None
             | Some (Inl e) \<Rightarrow> Some (Abort e, w1)
             | Some (Inr (httpResponse, replies)) \<Rightarrow>
                 (case traverse (\<lambda>artist. subscript artist ''name'') replies of
                    Inl e \<Rightarrow> Some (Abort e, w1)
                  | Inr artists \<Rightarrow> Some (store_or_cache f httpResponse (JArr artists) w1))))"

text \<open>
  The same span of \<^verbatim>\<open>readTraktTV\<close> and \<^verbatim>\<open>readGoodreads\<close>, whose single request stands
  in a \<^verbatim>\<open>try\<close> of its own; \<open>fetched\<close> is the \<^verbatim>\<open>httpResponse\<close> and the results the request
  would leave.
\<close>

definition cached_or_fetched :: "filename \<Rightarrow> int \<times> json \<Rightarrow> world \<Rightarrow> json flow \<times> world" where
  "cached_or_fetched f fetched w =
     (case isCacheUpdateNeeded f default_frequency w of
        (Inl e, w1) \<Rightarrow> (Abort e, w1)
      | (Inr r, w1) \<Rightarrow>
          if r \<noteq> Some True then (read_cache f w1, w1)
          else store_or_cache f (fst fetched) (snd fetched) w1)"

text \<open>The request of \<^verbatim>\<open>readTraktTV\<close>: any exception leaves \<^verbatim>\<open>[]\<close> and \<^verbatim>\<open>-1\<close>.\<close>

definition fetch_once :: "response \<Rightarrow> int \<times> json" where
  "fetch_once r =
     (case r of
        ConnError \<Rightarrow> (- 1, JArr [])
      | Response status body \<Rightarrow>
          if status = 200
          then (case body of None \<Rightarrow> (- 1, JArr []) | Some j \<Rightarrow> (200, j))
          else (status, JArr []))"

text \<open>
  The reply of goodreads: an exception, or a status with the document, read as the
  texts of the \<^verbatim>\<open>name\<close> of each \<^verbatim>\<open>author\<close> under \<^verbatim>\<open>favorite_authors\<close> (\<open>None\<close> for an
  author without one); no document when it does not parse or has no such section.
\<close>

datatype xml_response = XConnError | XResponse int "string option list option"

definition goodreads_authors :: "string option list \<Rightarrow> json" where
  "goodreads_authors authors =
     JArr (List.map_filter
             (\<lambda>a. case a of
                     None \<Rightarrow> None
                   | Some author \<Rightarrow>
                       if author \<noteq> [] then Some (JStr (goodreads_clean author)) else None)
             authors)"

definition fetch_xml :: "xml_response \<Rightarrow> int \<times> json" where
  "fetch_xml r =
     (case r of
        XConnError \<Rightarrow> (- 1, JArr [])
      | XResponse status doc \<Rightarrow>
          if status = 200
          then (case doc of
                  None \<Rightarrow> (- 1, JArr [])
                | Some authors \<Rightarrow> (200, goodreads_authors authors))
          else (status, JArr []))"

section \<open>The adapters\<close>

text \<open>
  A \<^verbatim>\<open>str\<close> joined with a \<^verbatim>\<open>unicode\<close> is decoded as ASCII. The names of the descriptor
  files come from \<^verbatim>\<open>os.listdir\<close> as \<^verbatim>\<open>str\<close>; the cache directories are settings (not
  in this module), taken as parameters \<open>cacheDir\<close>.
\<close>

definition to_unicode :: "string \<Rightarrow> exn + string" where
  "to_unicode s = (if list_all is_ascii s then Inr s else Inl UnicodeDecodeError)"

definition try_abort :: "exn + 'a \<Rightarrow> 'a flow" where
  "try_abort r = (case r of Inl e \<Rightarrow> Abort e | Inr x \<Rightarrow> Proceed x)"

text \<open>Steps that change the world, in sequence.\<close>

definition then_do :: "'a flow \<times> 's \<Rightarrow> ('a \<Rightarrow> 's \<Rightarrow> 'b flow \<times> 's) \<Rightarrow> 'b flow \<times> 's" where
  "then_do r k =
     (case r of
        (Proceed x, s) \<Rightarrow> k x s
      | (Continue, s) \<Rightarrow> (Continue, s)
      | (Abort e, s) \<Rightarrow> (Abort e, s))"

definition required_keys :: "string list" where
  "required_keys =
     [''username'', ''api_key'', ''list_name'', ''type'', ''feedDestination'', ''minorFeeds'']"

definition name_path :: "filename \<Rightarrow> string" where
  "name_path f = (case path_of f of None \<Rightarrow> [] | Some p \<Rightarrow> p)"

text \<open>
  \<^verbatim>\<open>"{0}/{1}".format(cacheDir, artistsList.get("list_name")+'.'+configFile)\<close>: the list
  name as the descriptor has it.
\<close>

definition lastfm_cacheFileName :: "string \<Rightarrow> string \<Rightarrow> json \<Rightarrow> exn + filename" where
  "lastfm_cacheFileName cacheDir configFile d =
     (case field d ''list_name'' JNull of
        JStr s \<Rightarrow>
          and_then (to_unicode configFile) (\<lambda>c.
            if list_all is_ascii s then Inr (FStr (cacheDir @ ''/'' @ s @ ''.'' @ c))
            else Inl UnicodeEncodeError)
      | v \<Rightarrow> Inl TypeError)"

text \<open>\<^verbatim>\<open>os.path.join(cacheDir, feedName+'.'+configFile)\<close>\<close>

definition trakt_cacheFileName :: "string \<Rightarrow> string \<Rightarrow> string \<Rightarrow> exn + filename" where
  "trakt_cacheFileName cacheDir configFile name =
     and_then (to_unicode configFile) (\<lambda>c.
       let b = name @ ''.'' @ c
       in if hd b = CHR ''/'' then Inr (FUnicode (path_join cacheDir b))
          else and_then (to_unicode cacheDir) (\<lambda>a. Inr (FUnicode (path_join a b))))"

text \<open>
  One turn of the record loop of \<^verbatim>\<open>readLastfmArtists\<close>, up to the fetch: the test of the
  parts, the cache file name and its directory, then the name, the type, the destination
  and the minor feeds.
\<close>

definition lastfm_head ::
  "(string \<Rightarrow> 'f option) \<Rightarrow> (string \<Rightarrow> bool) \<Rightarrow> string \<Rightarrow> string \<Rightarrow> json \<Rightarrow> world
   \<Rightarrow> (filename \<times> 'f majorFeed) flow \<times> world" where
  "lastfm_head py_float mkfail cacheDir configFile d w =
     then_do (required_parts d required_keys, w) (\<lambda>u w.
     then_do (try_abort (lastfm_cacheFileName cacheDir configFile d), w) (\<lambda>f w.
     then_do (ensure_cache_dir mkfail (name_path f) w) (\<lambda>u w1.
     then_do (get_feedName d, w1) (\<lambda>name w1.
     then_do (descriptor_rest py_float d name, w1) (\<lambda>feed w1.
     (Proceed (f, feed), w1))))))"

text \<open>The entry goes in under the bare feed name.\<close>

definition lastfmRecord ::
  "nat \<Rightarrow> (string \<Rightarrow> 'f option) \<Rightarrow> (string \<Rightarrow> bool) \<Rightarrow> (json \<Rightarrow> json \<Rightarrow> int \<Rightarrow> response)
   \<Rightarrow> string \<Rightarrow> string \<Rightarrow> json \<Rightarrow> world
   \<Rightarrow> ((string \<times> 'f majorFeed) flow \<times> world) option" where
  "lastfmRecord fuel py_float mkfail lastfm_get cacheDir configFile d w =
     (case lastfm_head py_float mkfail cacheDir configFile d w of
        (Continue, w1) \<Rightarrow> Some (Continue, w1)
      | (Abort e, w1) \<Rightarrow> Some (Abort e, w1)
      | (Proceed (f, feed), w1) \<Rightarrow>
          (case lastfm_subjects fuel lastfm_get d f w1 of
             None \<Rightarrow> None
           | Some r \<Rightarrow>
               Some (then_do r (\<lambda>artists w2.
                 then_do (try_continue_all
                            (lastfm_filters (field d ''filters'' (JArr [])) artists), w2)
                   (\<lambda>feedFilterList w2.
                      (Proceed (feedName feed, feed\<lparr>feedFilters := feedFilterList\<rparr>), w2))))))"

text \<open>
  One turn of the record loop of \<^verbatim>\<open>readTraktTV\<close>; the entry goes in under
  \<^verbatim>\<open>configFile+'.'+feedName\<close>.
\<close>

definition traktRecord ::
  "(string \<Rightarrow> 'f option) \<Rightarrow> (string \<Rightarrow> bool) \<Rightarrow> (json \<Rightarrow> json \<Rightarrow> json \<Rightarrow> response)
   \<Rightarrow> string \<Rightarrow> string \<Rightarrow> json \<Rightarrow> world \<Rightarrow> (string \<times> 'f majorFeed) flow \<times> world" where
  "traktRecord py_float mkfail trakt_get cacheDir configFile d w =
     then_do (required_parts d required_keys, w) (\<lambda>u w.
     then_do (get_feedName d, w) (\<lambda>name w.
     then_do (try_abort (trakt_cacheFileName cacheDir configFile name), w) (\<lambda>f w.
     then_do (ensure_cache_dir mkfail (name_path f) w) (\<lambda>u w1.
     then_do (descriptor_rest py_float d name, w1) (\<lambda>feed w1.
     then_do (cached_or_fetched f
                (fetch_once (trakt_get (field d ''username'' JNull)
                               (field d ''list_name'' JNull) (field d ''api_key'' (JStr []))))
                w1) (\<lambda>traktListResults w2.
     then_do (try_continue_all
                (trakt_filters (feedType feed) (field d ''like'' (JBool False))
                   (field d ''filters'' (JArr [])) traktListResults), w2)
       (\<lambda>feedFilterList w2.
          (Proceed (configFile @ ''.'' @ name, feed\<lparr>feedFilters := feedFilterList\<rparr>),
           w2))))))))"

text \<open>One turn of the record loop of \<^verbatim>\<open>readGoodreads\<close>.\<close>

definition goodreadsRecord ::
  "(string \<Rightarrow> 'f option) \<Rightarrow> (string \<Rightarrow> bool) \<Rightarrow> (json \<Rightarrow> json \<Rightarrow> xml_response)
   \<Rightarrow> string \<Rightarrow> string \<Rightarrow> json \<Rightarrow> world \<Rightarrow> (string \<times> 'f majorFeed) flow \<times> world" where
  "goodreadsRecord py_float mkfail goodreads_get cacheDir configFile d w =
     then_do (required_parts d required_keys, w) (\<lambda>u w.
     then_do (get_feedName d, w) (\<lambda>name w.
     then_do (try_abort (trakt_cacheFileName cacheDir configFile name), w) (\<lambda>f w.
     then_do (ensure_cache_dir mkfail (name_path f) w) (\<lambda>u w1.
     then_do (descriptor_rest py_float d name, w1) (\<lambda>feed w1.
     then_do (cached_or_fetched f
                (fetch_xml (goodreads_get (field d ''username'' JNull)
                              (field d ''api_key'' JNull)))
                w1) (\<lambda>goodreadsListResults w2.
     then_do (try_continue_all
                (goodreads_filters (field d ''like'' (JBool False))
                   (field d ''filters'' (JArr [])) goodreadsListResults), w2)
       (\<lambda>feedFilterList w2.
          (Proceed (configFile @ ''.'' @ name, feed\<lparr>feedFilters := feedFilterList\<rparr>),
           w2))))))))"

text \<open>
  One turn of the record loop of \<^verbatim>\<open>readRSS\<close>, which reads and writes no file: the
  record is the \<^verbatim>\<open>"majorFeed"\<close> of the element.
\<close>

definition rssRecord ::
  "(string \<Rightarrow> 'f option) \<Rightarrow> string \<Rightarrow> json \<Rightarrow> (string \<times> 'f majorFeed) flow" where
  "rssRecord py_float configFile element =
     flow_bind (try_abort (py_get element ''majorFeed'' JNull)) (\<lambda>d.
     flow_bind (required_parts d [''list_name'', ''feedDestination'', ''minorFeeds'']) (\<lambda>u.
     flow_bind (get_feedName d) (\<lambda>name.
     flow_bind (descriptor_rest py_float d name) (\<lambda>feed.
     flow_bind (try_continue_all (rss_filters (field d ''filters'' (JArr [])))) (\<lambda>feedFilterList.
     flow_bind (try_abort (to_unicode configFile)) (\<lambda>c.
     Proceed (c @ ''.'' @ name, feed\<lparr>feedFilters := feedFilterList\<rparr>)))))))"

section \<open>The loops over records and files\<close>

text \<open>
  \<^verbatim>\<open>for record in records\<close> inside \<^verbatim>\<open>try ... except Exception\<close>: an entry is stored under
  its key, \<^verbatim>\<open>continue\<close> goes to the next record, an exception ends the records of this
  file.
\<close>

fun run_records ::
  "(json \<Rightarrow> 's \<Rightarrow> (string \<times> 'v) flow \<times> 's) \<Rightarrow> json list \<Rightarrow> (string \<Rightarrow> 'v option) \<Rightarrow> 's
   \<Rightarrow> (string \<Rightarrow> 'v option) \<times> 's" where
  "run_records step [] majorFeeds w = (majorFeeds, w)"
| "run_records step (d # ds) majorFeeds w =
     (case step d w of
        (Proceed (k, v), w') \<Rightarrow> run_records step ds (majorFeeds(k \<mapsto> v)) w'
      | (Continue, w') \<Rightarrow> run_records step ds majorFeeds w'
      | (Abort e, w') \<Rightarrow> (majorFeeds, w'))"

definition endswith_json :: "string \<Rightarrow> bool" where
  "endswith_json name = (5 \<le> length name \<and> drop (length name - 5) name = ''.json'')"

text \<open>
  \<^verbatim>\<open>for configFile in os.listdir(configFolder)\<close>: the folder is the list of its file names
  with what each parses to (\<open>None\<close>: \<^verbatim>\<open>json.load\<close> raises). Other names are skipped, and so
  is a file that does not parse or cannot be iterated.
\<close>

fun run_files ::
  "(string \<Rightarrow> json \<Rightarrow> 's \<Rightarrow> (string \<times> 'v) flow \<times> 's) \<Rightarrow> (string \<times> json option) list
   \<Rightarrow> (string \<Rightarrow> 'v option) \<Rightarrow> 's \<Rightarrow> (string \<Rightarrow> 'v option) \<times> 's" where
  "run_files step [] majorFeeds w = (majorFeeds, w)"
| "run_files step ((configFile, content) # rest) majorFeeds w =
     (if \<not> endswith_json configFile then run_files step rest majorFeeds w
      else (case content of
              None \<Rightarrow> run_files step rest majorFeeds w
            | Some j \<Rightarrow>
                (case py_iter j of
                   Inl e \<Rightarrow> run_files step rest majorFeeds w
                 | Inr ds \<Rightarrow>
                     (case run_records (step configFile) ds majorFeeds w of
                        (majorFeeds', w') \<Rightarrow> run_files step rest majorFeeds' w'))))"

text \<open>The same two loops around the last.fm record, whose page loop may not end.\<close>

fun lastfm_records ::
  "(json \<Rightarrow> world \<Rightarrow> ((string \<times> 'v) flow \<times> world) option) \<Rightarrow> json list
   \<Rightarrow> (string \<Rightarrow> 'v option) \<Rightarrow> world \<Rightarrow> ((string \<Rightarrow> 'v option) \<times> world) option" where
  "lastfm_records step [] majorFeeds w = Some (majorFeeds, w)"
| "lastfm_records step (d # ds) majorFeeds w =
     (case step d w of
        None \<Rightarrow> None
      | Some (Proceed (k, v), w') \<Rightarrow> lastfm_records step ds (majorFeeds(k \<mapsto> v)) w'
      | Some (Continue, w') \<Rightarrow> lastfm_records step ds majorFeeds w'
      | Some (Abort e, w') \<Rightarrow> Some (majorFeeds, w'))"

fun lastfm_files ::
  "(string \<Rightarrow> json \<Rightarrow> world \<Rightarrow> ((string \<times> 'v) flow \<times> world) option)
   \<Rightarrow> (string \<times> json option) list \<Rightarrow> (string \<Rightarrow> 'v option) \<Rightarrow> world
   \<Rightarrow> ((string \<Rightarrow> 'v option) \<times> world) option" where
  "lastfm_files step [] majorFeeds w = Some (majorFeeds, w)"
| "lastfm_files step ((configFile, content) # rest) majorFeeds w =
     (if \<not> endswith_json configFile then lastfm_files step rest majorFeeds w
      else (case content of
              None \<Rightarrow> lastfm_files step rest majorFeeds w
            | Some j \<Rightarrow>
                (case py_iter j of
                   Inl e \<Rightarrow> lastfm_files step rest majorFeeds w
                 | Inr ds \<Rightarrow>
                     (case lastfm_records (step configFile) ds majorFeeds w of
                        None \<Rightarrow> None
                      | Some (majorFeeds', w') \<Rightarrow> lastfm_files step rest majorFeeds' w'))))"

text \<open>
  The four adapters. \<open>folder\<close> is \<open>None\<close> when \<^verbatim>\<open>os.listdir\<close> raises: three adapters then
  return the empty dict, \<^verbatim>\<open>readRSS\<close>, which lists the folder outside its \<^verbatim>\<open>try\<close>, raises.
\<close>

definition readLastfmArtists ::
  "nat \<Rightarrow> (string \<Rightarrow> 'f option) \<Rightarrow> (string \<Rightarrow> bool) \<Rightarrow> (json \<Rightarrow> json \<Rightarrow> int \<Rightarrow> response)
   \<Rightarrow> string \<Rightarrow> (string \<times> json option) list option \<Rightarrow> world
   \<Rightarrow> ((string \<Rightarrow> 'f majorFeed option) \<times> world) option" where
  "readLastfmArtists fuel py_float mkfail lastfm_get cacheDir folder w =
     (case folder of
        None \<Rightarrow> Some (Map.empty, w)
      | Some files \<Rightarrow>
          lastfm_files (lastfmRecord fuel py_float mkfail lastfm_get cacheDir) files
            Map.empty w)"

definition readTraktTV ::
  "(string \<Rightarrow> 'f option) \<Rightarrow> (string \<Rightarrow> bool) \<Rightarrow> (json \<Rightarrow> json \<Rightarrow> json \<Rightarrow> response)
   \<Rightarrow> string \<Rightarrow> (string \<times> json option) list option \<Rightarrow> world
   \<Rightarrow> (string \<Rightarrow> 'f majorFeed option) \<times> world" where
  "readTraktTV py_float mkfail trakt_get cacheDir folder w =
     (case folder of
        None \<Rightarrow> (Map.empty, w)
      | Some files \<Rightarrow>
          run_files (traktRecord py_float mkfail trakt_get cacheDir) files Map.empty w)"

definition readGoodreads ::
  "(string \<Rightarrow> 'f option) \<Rightarrow> (string \<Rightarrow> bool) \<Rightarrow> (json \<Rightarrow> json \<Rightarrow> xml_response)
   \<Rightarrow> string \<Rightarrow> (string \<times> json option) list option \<Rightarrow> world
   \<Rightarrow> (string \<Rightarrow> 'f majorFeed option) \<times> world" where
  "readGoodreads py_float mkfail goodreads_get cacheDir folder w =
     (case folder of
        None \<Rightarrow> (Map.empty, w)
      | Some files \<Rightarrow>
          run_files (goodreadsRecord py_float mkfail goodreads_get cacheDir) files
            Map.empty w)"

definition readRSS ::
  "(string \<Rightarrow> 'f option) \<Rightarrow> (string \<times> json option) list option
   \<Rightarrow> exn + (string \<Rightarrow> 'f majorFeed option)" where
  "readRSS py_float folder =
     (case folder of
        None \<Rightarrow> Inl OSError
      | Some files \<Rightarrow>
          Inr (fst (run_files (\<lambda>configFile d u. (rssRecord py_float configFile d, u)) files
                      Map.empty ())))"

section \<open>Descriptor shapes\<close>

text \<open>
  A filter template with the given exclude and include pairs, one pair to an element, as
  a descriptor file writes it:
  \<^verbatim>\<open>{"exclude": [{k: v}, ...], "include": [{k: v}, ...]}\<close>.
\<close>

definition template_json :: "(string \<times> json) list \<Rightarrow> (string \<times> json) list \<Rightarrow> json" where
  "template_json ex inc =
     JObj [(''exclude'', JArr (map (\<lambda>kv. JObj [kv]) ex)),
           (''include'', JArr (map (\<lambda>kv. JObj [kv]) inc))]"

definition pair_rule :: "bool \<Rightarrow> string \<times> json \<Rightarrow> rule" where
  "pair_rule ex kv = \<lparr>key = fst kv, val = snd kv, exclude = ex\<rparr>"

text \<open>The items of a trakt list reply: a show, and a movie with its year.\<close>

definition show_item :: "string \<Rightarrow> json" where
  "show_item t = JObj [(''show'', JObj [(''title'', JStr t)])]"

definition movie_item :: "string \<Rightarrow> json \<Rightarrow> json" where
  "movie_item t y = JObj [(''movie'', JObj [(''title'', JStr t), (''year'', y)])]"

definition templates_json :: "((string \<times> json) list \<times> (string \<times> json) list) list \<Rightarrow> json" where
  "templates_json ts = JArr (map (\<lambda>t. template_json (fst t) (snd t)) ts)"


text \<open>
  A filter template whose elements hold any number of pairs, each element given by its
  pairs in the order \<^verbatim>\<open>items()\<close> lists them, and the rules made of the first pair of
  each element.
\<close>

definition elements_json :: "(string \<times> json) list list \<Rightarrow> (string \<times> json) list list \<Rightarrow> json" where
  "elements_json excl incl =
     JObj [(''exclude'', JArr (map JObj excl)), (''include'', JArr (map JObj incl))]"

definition first_pairs :: "bool \<Rightarrow> (string \<times> json) list list \<Rightarrow> rule list" where
  "first_pairs ex es = map (\<lambda>e. pair_rule ex (hd e)) es"

text \<open>A part of a minor feed that is left out, or is the text \<open>s\<close>.\<close>

definition text_or_absent :: "(string \<times> json) list \<Rightarrow> string \<Rightarrow> string \<Rightarrow> string \<Rightarrow> bool" where
  "text_or_absent kvs k dflt s =
     (case map_of kvs k of None \<Rightarrow> s = dflt | Some v \<Rightarrow> v = JStr s)"

text \<open>No cache file at a path: nothing there, or a directory.\<close>

definition no_cache_file :: "world \<Rightarrow> string \<Rightarrow> bool" where
  "no_cache_file w p = (case fs w p of Some (File t c) \<Rightarrow> False | n \<Rightarrow> True)"

section \<open>Concrete inputs\<close>

text \<open>
  Worlds and descriptors on which the properties below are evaluated. The worlds are in
  a time zone without daylight saving.
\<close>

definition w_edge :: world where
  "w_edge =
     \<lparr>fs = [''/c/rock.a.json'' \<mapsto> File 30 (Some (JArr []))], ticks = 0,
      clock = (\<lambda>n. 21600), strftime_s = (\<lambda>t. t)\<rparr>"

definition w_old :: world where
  "w_old =
     \<lparr>fs = [''/c'' \<mapsto> Dir 0, ''/c/rock.a.json'' \<mapsto> File 0 (Some (JArr []))],
      ticks = 0, clock = (\<lambda>n. 21600), strftime_s = (\<lambda>t. t)\<rparr>"

definition w_empty :: world where
  "w_empty =
     \<lparr>fs = [''/c'' \<mapsto> Dir 0], ticks = 0, clock = (\<lambda>n. 21600), strftime_s = (\<lambda>t. t)\<rparr>"

definition cafe_name :: filename where
  "cafe_name = FUnicode (''/c/caf'' @ [CHR 0xE9] @ ''.shows.json'')"

text \<open>
  The elements \<^verbatim>\<open>{"quality": "cam", "source": "ts", "codec": "xvid"}\<close> and
  \<^verbatim>\<open>{"quality": "hd", "source": "web"}\<close>: in the table of a \<^verbatim>\<open>dict\<close> of CPython 2.7 the
  keys \<^verbatim>\<open>source\<close>, \<^verbatim>\<open>codec\<close> and \<^verbatim>\<open>quality\<close> take the slots 1, 3 and 4, so \<^verbatim>\<open>items()\<close>
  lists \<^verbatim>\<open>source\<close> first.
\<close>

definition three_pair_element :: "(string \<times> json) list" where
  "three_pair_element =
     [(''source'', JStr ''ts''), (''codec'', JStr ''xvid''), (''quality'', JStr ''cam'')]"

definition two_pair_element :: "(string \<times> json) list" where
  "two_pair_element = [(''source'', JStr ''web''), (''quality'', JStr ''hd'')]"

text \<open>A stand-in for \<^verbatim>\<open>float\<close> on the texts of the examples.\<close>

definition sample_float :: "string \<Rightarrow> real option" where
  "sample_float s =
     (if s = ''0.0'' then Some 0 else if s = ''1.5'' then Some (3 / 2) else None)"

text \<open>A minor feed with its parts typed as the spec declares them, and one in texts.\<close>

definition feed_typed :: json where
  "feed_typed =
     JObj [(''url'', JStr ''http://t/rss''), (''minTime'', JInt 5),
           (''minRatio'', JFloat (3 / 2)), (''comparison'', JStr ''or'')]"

definition feed_texts :: json where
  "feed_texts = JObj [(''url'', JStr '' http://t/rss ''), (''minTime'', JStr ''24'')]"

definition rss_element :: "string \<Rightarrow> json list \<Rightarrow> json" where
  "rss_element name feeds =
     JObj [(''majorFeed'',
            JObj [(''list_name'', JStr name), (''feedDestination'', JStr ''/d''),
                  (''minorFeeds'', JArr feeds)])]"

definition news_feed :: "real majorFeed" where
  "news_feed = \<lparr>feedName = ''news'', feedType = ''none'', feedDestination = ''/d'',
                 minorFeeds = [], feedFilters = []\<rparr>"

text \<open>A last.fm descriptor, a server that answers 500, and a file system that never fails.\<close>

definition lastfm_rock :: json where
  "lastfm_rock =
     JObj [(''username'', JStr ''u''), (''api_key'', JStr ''k''), (''list_name'', JStr ''rock''),
           (''type'', JStr ''music''), (''feedDestination'', JStr ''/d''),
           (''minorFeeds'', JArr []), (''filters'', JArr [template_json [] []])]"

definition server_error :: "json \<Rightarrow> json \<Rightarrow> int \<Rightarrow> response" where
  "server_error k u page = Response 500 None"

definition trakt_error :: "json \<Rightarrow> json \<Rightarrow> json \<Rightarrow> response" where
  "trakt_error u l k = Response 500 None"

definition no_mkfail :: "string \<Rightarrow> bool" where
  "no_mkfail d = False"

text \<open>
  A world without the cache directory, an \<^verbatim>\<open>os.makedirs\<close> that raises because another
  process has made the directory since \<^verbatim>\<open>os.path.exists\<close> looked, and a server with one
  page of one artist.
\<close>

definition w_bare :: world where
  "w_bare = \<lparr>fs = Map.empty, ticks = 0, clock = (\<lambda>n. 21600), strftime_s = (\<lambda>t. t)\<rparr>"

definition lost_race :: "string \<Rightarrow> bool" where
  "lost_race d = True"

definition one_page :: "json \<Rightarrow> json \<Rightarrow> int \<Rightarrow> response" where
  "one_page k u page =
     Response 200 (Some (JObj [(''artists'',
       JObj [(''@attr'', JObj [(''totalPages'', JStr ''1'')]),
             (''artist'', JArr [JObj [(''name'', JStr ''ABBA'')]])])]))"

section \<open>Properties of the staleness check\<close>

lemma modificationDate_missing:
  "format_ok f \<Longrightarrow> getmtime w f = None \<Longrightarrow> modificationDate w f = Inr (- 1)"
  by (simp add: modificationDate_def format_name_def)

lemma modificationDate_present:
  "getmtime w f = Some t \<Longrightarrow> modificationDate w f = Inr (strftime_s w t)"
  by (simp add: modificationDate_def)

lemma isCacheUpdateNeeded_missing:
  "format_ok f \<Longrightarrow> getmtime w f = None \<Longrightarrow>
   isCacheUpdateNeeded f freq w = (Inr (Some True), w)"
  by (simp add: isCacheUpdateNeeded_def modificationDate_missing)

lemma isCacheUpdateNeeded_present:
  "format_ok f \<Longrightarrow> modificationDate w f = Inr m \<Longrightarrow> m \<noteq> - 1 \<Longrightarrow>
   isCacheUpdateNeeded f freq w =
     (Inr (Some (freq \<le> \<lceil>clock w (Suc (ticks w)) / 60 - real_of_int (m div 60)\<rceil>)),
      w\<lparr>ticks := Suc (Suc (ticks w))\<rparr>)"
  by (simp add: isCacheUpdateNeeded_def time_time_def format_name_def)

lemma isCacheUpdateNeeded_minus_one:
  "modificationDate w f = Inr (- 1) \<Longrightarrow> isCacheUpdateNeeded f freq w = (Inr (Some True), w)"
  by (simp add: isCacheUpdateNeeded_def)

lemma div60_le: "real_of_int (m div 60) \<le> real_of_int m / 60"
proof -
  have "60 * (m div 60) \<le> m" by simp
  then have "real_of_int (60 * (m div 60)) \<le> real_of_int m" by (rule of_int_le_iff[THEN iffD2])
  then show ?thesis by simp
qed

lemma div60_ge: "(real_of_int m - 59) / 60 \<le> real_of_int (m div 60)"
proof -
  have "m mod 60 < 60" by simp
  moreover have "m = 60 * (m div 60) + m mod 60" by simp
  ultimately have "m \<le> 60 * (m div 60) + 59" by linarith
  then have "real_of_int m \<le> real_of_int (60 * (m div 60) + 59)" by (rule of_int_le_iff[THEN iffD2])
  then show ?thesis by simp
qed


lemma stale_old:
  assumes "real_of_int m \<le> now - 60 * real_of_int freq"
  shows "freq \<le> \<lceil>now / 60 - real_of_int (m div 60)\<rceil>"
proof -
  have "real_of_int freq \<le> now / 60 - real_of_int m / 60" using assms by linarith
  also have "\<dots> \<le> now / 60 - real_of_int (m div 60)" using div60_le[of m] by linarith
  also have "\<dots> \<le> real_of_int \<lceil>now / 60 - real_of_int (m div 60)\<rceil>"
    by (rule le_of_int_ceiling)
  finally show ?thesis by (rule of_int_le_iff[THEN iffD1])
qed

lemma fresh_new:
  assumes "now - real_of_int m \<le> 60 * (real_of_int freq - 2)"
  shows "\<not> freq \<le> \<lceil>now / 60 - real_of_int (m div 60)\<rceil>"
proof -
  have "now / 60 - real_of_int (m div 60) \<le> now / 60 - (real_of_int m - 59) / 60"
    using div60_ge[of m] by linarith
  also have "\<dots> \<le> real_of_int freq - 1" using assms by (simp add: field_simps)
  finally have "now / 60 - real_of_int (m div 60) \<le> real_of_int (freq - 1)" by simp
  then have "\<lceil>now / 60 - real_of_int (m div 60)\<rceil> \<le> freq - 1"
    by (rule ceiling_le)
  then show ?thesis by linarith
qed

text \<open>
  C3 (as amended). For a file name that the log line can be formatted with (a \<^verbatim>\<open>str\<close>, or
  a \<^verbatim>\<open>unicode\<close> of ASCII characters only): a path whose modification time cannot be read
  is stale. For a path that is there, \<^verbatim>\<open>modificationDate\<close> returns its modification time
  taken to local time and back; with \<open>m\<close> the value it returns, the file is stale when
  \<open>m\<close> is \<open>-1\<close>, and otherwise the check returns whether \<open>\<lceil>now / 60 - \<lfloor>m / 60\<rfloor>\<rceil>\<close>
  reaches the frequency, \<open>now\<close> being the second clock reading of the call. So when \<open>m\<close> is at least \<open>frequency\<close> minutes before
  \<open>now\<close> the file is stale, when it is at most \<open>frequency - 2\<close> minutes before \<open>now\<close> the
  file is not, and the default frequency is 360.
\<close>

theorem isCacheUpdateNeeded_staleness:
  assumes ok: "format_ok f"
  shows "(getmtime w f = None \<longrightarrow> fst (isCacheUpdateNeeded f freq w) = Inr (Some True))
    \<and> (\<forall>t. getmtime w f = Some t \<longrightarrow> modificationDate w f = Inr (strftime_s w t))
    \<and> (modificationDate w f = Inr (- 1) \<longrightarrow>
          fst (isCacheUpdateNeeded f freq w) = Inr (Some True))
    \<and> (\<forall>m. modificationDate w f = Inr m \<and> m \<noteq> - 1 \<longrightarrow>
          fst (isCacheUpdateNeeded f freq w) =
            Inr (Some (freq \<le> \<lceil>clock w (Suc (ticks w)) / 60 - real_of_int (m div 60)\<rceil>)))
    \<and> (\<forall>m. modificationDate w f = Inr m \<and>
            real_of_int m \<le> clock w (Suc (ticks w)) - 60 * real_of_int freq \<longrightarrow>
          fst (isCacheUpdateNeeded f freq w) = Inr (Some True))
    \<and> (\<forall>m. modificationDate w f = Inr m \<and> m \<noteq> - 1 \<and>
            clock w (Suc (ticks w)) - real_of_int m \<le> 60 * (real_of_int freq - 2) \<longrightarrow>
          fst (isCacheUpdateNeeded f freq w) = Inr (Some False))
    \<and> default_frequency = 360"
proof (intro conjI allI impI)
  show "fst (isCacheUpdateNeeded f freq w) = Inr (Some True)" if "getmtime w f = None"
    using that ok by (simp add: isCacheUpdateNeeded_missing)
next
  fix t assume "getmtime w f = Some t"
  then show "modificationDate w f = Inr (strftime_s w t)" by (rule modificationDate_present)
next
  assume "modificationDate w f = Inr (- 1)"
  then show "fst (isCacheUpdateNeeded f freq w) = Inr (Some True)"
    by (simp add: isCacheUpdateNeeded_minus_one)
next
  fix m assume "modificationDate w f = Inr m \<and> m \<noteq> - 1"
  then show "fst (isCacheUpdateNeeded f freq w) =
      Inr (Some (freq \<le> \<lceil>clock w (Suc (ticks w)) / 60 - real_of_int (m div 60)\<rceil>))"
    using ok isCacheUpdateNeeded_present[of f w m freq] by simp
next
  fix m assume a: "modificationDate w f = Inr m \<and>
      real_of_int m \<le> clock w (Suc (ticks w)) - 60 * real_of_int freq"
  show "fst (isCacheUpdateNeeded f freq w) = Inr (Some True)"
  proof (cases "m = - 1")
    case True
    then show ?thesis using a by (simp add: isCacheUpdateNeeded_minus_one)
  next
    case False
    have "freq \<le> \<lceil>clock w (Suc (ticks w)) / 60 - real_of_int (m div 60)\<rceil>"
      using a by (intro stale_old) simp
    then show ?thesis using a ok False isCacheUpdateNeeded_present[of f w m freq] by simp
  qed
next
  fix m assume a: "modificationDate w f = Inr m \<and> m \<noteq> - 1 \<and>
      clock w (Suc (ticks w)) - real_of_int m \<le> 60 * (real_of_int freq - 2)"
  have "\<not> freq \<le> \<lceil>clock w (Suc (ticks w)) / 60 - real_of_int (m div 60)\<rceil>"
    using a by (intro fresh_new) simp
  then show "fst (isCacheUpdateNeeded f freq w) = Inr (Some False)"
    using ok a isCacheUpdateNeeded_present[of f w m freq] by simp
next
  show "default_frequency = 360" by (simp add: default_frequency_def)
qed

lemma w_edge_check:
  "isCacheUpdateNeeded (FStr ''/c/rock.a.json'') 360 w_edge =
     (Inr (Some True), w_edge\<lparr>ticks := 2\<rparr>)"
  by (simp add: w_edge_def getmtime_def isCacheUpdateNeeded_def
      modificationDate_def time_time_def format_name_def)

text \<open>
  The claim as stated fails: a file modified 30 s after the epoch is newer than
  \<open>now - 360\<close> minutes at \<open>now = 21600\<close> s, and the check still returns true.
\<close>

theorem isCacheUpdateNeeded_newer_counterexample:
  "getmtime w_edge (FStr ''/c/rock.a.json'') = Some 30
   \<and> modificationDate w_edge (FStr ''/c/rock.a.json'') = Inr 30
   \<and> clock w_edge (Suc (ticks w_edge)) - 60 * real_of_int default_frequency < real_of_int 30
   \<and> fst (isCacheUpdateNeeded (FStr ''/c/rock.a.json'') default_frequency w_edge)
       = Inr (Some True)"
  by (simp add: w_edge_check default_frequency_def)
    (simp add: w_edge_def getmtime_def modificationDate_def)

theorem isCacheUpdateNeeded_staleness_witness:
  "format_ok (FStr ''/c/rock.a.json'')
   \<and> getmtime w_old (FStr ''/c/rock.a.json'') = Some 0
   \<and> modificationDate w_old (FStr ''/c/rock.a.json'') = Inr 0
   \<and> fst (isCacheUpdateNeeded (FStr ''/c/rock.a.json'') 360 w_old) = Inr (Some True)
   \<and> getmtime w_old (FStr ''/c/jazz.a.json'') = None
   \<and> fst (isCacheUpdateNeeded (FStr ''/c/jazz.a.json'') 360 w_old) = Inr (Some True)"
proof -
  have ok: "format_ok (FStr ''/c/rock.a.json'')" "format_ok (FStr ''/c/jazz.a.json'')"
    by simp_all
  have g: "getmtime w_old (FStr ''/c/rock.a.json'') = Some 0"
    by (simp add: w_old_def getmtime_def)
  have m: "modificationDate w_old (FStr ''/c/rock.a.json'') = Inr 0"
    by (simp add: w_old_def getmtime_def modificationDate_def)
  have n: "getmtime w_old (FStr ''/c/jazz.a.json'') = None"
    by (simp add: w_old_def getmtime_def)
  have old: "real_of_int 0 \<le> clock w_old (Suc (ticks w_old)) - 60 * real_of_int 360"
    by (simp add: w_old_def)
  from isCacheUpdateNeeded_staleness[OF ok(1), of w_old 360] m old
  have a: "fst (isCacheUpdateNeeded (FStr ''/c/rock.a.json'') 360 w_old) = Inr (Some True)"
    by blast
  from isCacheUpdateNeeded_staleness[OF ok(2), of w_old 360] n
  have b: "fst (isCacheUpdateNeeded (FStr ''/c/jazz.a.json'') 360 w_old) = Inr (Some True)"
    by blast
  from ok g m n a b show ?thesis by blast
qed

lemma isCacheUpdateNeeded_raises:
  "\<not> format_ok f \<Longrightarrow> modificationDate w f \<noteq> Inr (- 1) \<Longrightarrow>
   fst (isCacheUpdateNeeded f freq w) = Inl UnicodeEncodeError"
  by (cases "modificationDate w f")
    (simp_all add: isCacheUpdateNeeded_def format_name_def
      cache_check_handler_def time_time_def)

lemma cafe_name_not_ascii: "\<not> format_ok cafe_name"
  by (simp add: cafe_name_def is_ascii_def)

text \<open>
  C6. The staleness check can raise: for the cache file name \<^verbatim>\<open>readTraktTV\<close> builds from
  a list name with the code point U+00E9 (a \<^verbatim>\<open>unicode\<close> that ASCII cannot encode) the log line
  cannot be formatted, the handler formats the same name and raises in turn.
\<close>

theorem isCacheUpdateNeeded_unicode_raises:
  "fst (isCacheUpdateNeeded cafe_name default_frequency w_empty) = Inl UnicodeEncodeError"
  by (rule isCacheUpdateNeeded_raises[OF cafe_name_not_ascii])
    (simp add: modificationDate_def getmtime_def w_empty_def cafe_name_def format_name_def
      is_ascii_def)

lemma isCacheUpdateNeeded_fs [simp]:
  "fs (snd (isCacheUpdateNeeded f freq w)) = fs w"
  "clock (snd (isCacheUpdateNeeded f freq w)) = clock w"
  "strftime_s (snd (isCacheUpdateNeeded f freq w)) = strftime_s w"
  by (simp_all add: isCacheUpdateNeeded_def time_time_def
      split: sum.splits prod.splits)

lemma isCacheUpdateNeeded_ticks:
  "ticks w \<le> ticks (snd (isCacheUpdateNeeded f freq w))"
  by (simp add: isCacheUpdateNeeded_def time_time_def split: sum.splits prod.splits)

lemma getmtime_same_fs: "fs w = fs w0 \<Longrightarrow> getmtime w f = getmtime w0 f"
  unfolding getmtime_def by (cases "path_of f") auto

lemma modificationDate_same:
  "fs w = fs w0 \<Longrightarrow> strftime_s w = strftime_s w0 \<Longrightarrow>
   modificationDate w f = modificationDate w0 f"
  using getmtime_same_fs[of w w0 f]
  by (cases "getmtime w0 f") (simp_all add: modificationDate_def)

lemma isCacheUpdateNeeded_later:
  assumes ok: "format_ok f"
    and first: "fst (isCacheUpdateNeeded f freq w0) = Inr (Some True)"
    and same: "fs w = fs w0" "clock w = clock w0" "strftime_s w = strftime_s w0"
      "ticks w0 \<le> ticks w"
    and mono: "mono (clock w0)"
  shows "fst (isCacheUpdateNeeded f freq w) = Inr (Some True)"
proof -
  have "\<exists>m. modificationDate w0 f = Inr m"
    using ok by (cases "getmtime w0 f") (simp_all add: modificationDate_def format_name_def)
  then obtain m where m0: "modificationDate w0 f = Inr m" ..
  then have g: "modificationDate w f = Inr m"
    using same modificationDate_same[of w w0 f] by simp
  show ?thesis
  proof (cases "m = - 1")
    case True
    then show ?thesis using g by (simp add: isCacheUpdateNeeded_minus_one)
  next
    case False
    have a: "freq \<le> \<lceil>clock w0 (Suc (ticks w0)) / 60 - real_of_int (m div 60)\<rceil>"
      using first isCacheUpdateNeeded_present[OF ok m0 False, of freq] by simp
    have "clock w0 (Suc (ticks w0)) \<le> clock w0 (Suc (ticks w))"
      using mono same by (simp add: monoD)
    then have "clock w0 (Suc (ticks w0)) / 60 - real_of_int (m div 60)
        \<le> clock w (Suc (ticks w)) / 60 - real_of_int (m div 60)"
      using same by simp
    then have "\<lceil>clock w0 (Suc (ticks w0)) / 60 - real_of_int (m div 60)\<rceil>
        \<le> \<lceil>clock w (Suc (ticks w)) / 60 - real_of_int (m div 60)\<rceil>"
      by (rule ceiling_mono)
    with a have "freq \<le> \<lceil>clock w (Suc (ticks w)) / 60 - real_of_int (m div 60)\<rceil>"
      by linarith
    then show ?thesis using isCacheUpdateNeeded_present[OF ok g False, of freq] by simp
  qed
qed

section \<open>Properties of the cache write\<close>

lemma updateCacheFile_writes:
  assumes ok: "format_ok f" and p: "path_of f = Some p"
    and stale: "fst (isCacheUpdateNeeded f freq w) = Inr (Some True)"
    and wr: "p \<noteq> []" "\<not> is_dir (fs w p)" "dirname p = [] \<or> is_dir (fs w (dirname p))"
  shows "updateCacheFile f data freq w =
    (Inr (), (snd (isCacheUpdateNeeded f freq w))
       \<lparr>fs := (fs w)(p \<mapsto> File \<lfloor>clock w (ticks (snd (isCacheUpdateNeeded f freq w)))\<rfloor>
                          (Some data))\<rparr>)"
proof -
  obtain r w1 where c: "isCacheUpdateNeeded f freq w = (r, w1)" by (cases "isCacheUpdateNeeded f freq w")
  have f1: "fs w1 = fs w" "clock w1 = clock w"
    using isCacheUpdateNeeded_fs[of f freq w] c by simp_all
  have r: "r = Inr (Some True)" using stale c by simp
  have "open_write f data w1 = Inr (w1\<lparr>fs := (fs w)(p \<mapsto> File \<lfloor>clock w (ticks w1)\<rfloor> (Some data))\<rparr>)"
    using p wr f1 by (simp add: open_write_def)
  then show ?thesis using c r ok by (simp add: updateCacheFile_def format_name_def)
qed

lemma updateCacheFile_skips:
  assumes "fst (isCacheUpdateNeeded f freq w) \<noteq> Inr (Some True)"
  shows "fs (snd (updateCacheFile f data freq w)) = fs w"
proof -
  obtain r w1 where c: "isCacheUpdateNeeded f freq w = (r, w1)" by (cases "isCacheUpdateNeeded f freq w")
  have f1: "fs w1 = fs w" using isCacheUpdateNeeded_fs[of f freq w] c by simp
  show ?thesis using c assms f1
    by (cases r) (auto simp: updateCacheFile_def split: sum.splits)
qed

lemma ancestors_self: "d \<in> set (ancestors d)"
  by (simp add: ancestors_def)

lemma ensure_cache_dir_exists:
  assumes "ensure_cache_dir mkfail p w = (Proceed u, w')"
  shows "path_exists w' (dirname p)"
proof (cases "path_exists w (dirname p)")
  case True
  then show ?thesis using assms by (simp add: ensure_cache_dir_def)
next
  case False
  then show ?thesis using assms ancestors_self[of "dirname p"]
    by (auto simp: ensure_cache_dir_def makedirs_def path_exists_def split: if_splits sum.splits)
qed

lemma ensure_cache_dir_makes:
  assumes "\<not> path_exists w (dirname p)" "dirname p \<noteq> []" "\<not> mkfail (dirname p)"
  shows "\<exists>w'. ensure_cache_dir mkfail p w = (Proceed (), w') \<and> is_dir (fs w' (dirname p))"
  using assms ancestors_self[of "dirname p"]
  by (simp add: ensure_cache_dir_def makedirs_def path_exists_def)

lemma dirname_rock: "dirname ''/c/rock.a.json'' = ''/c''"
  by (simp add: dirname_def)

text \<open>
  In an adapter run the write is not held back: when the check that opened the fetch
  answered true and the clock does not go back, the call of \<^verbatim>\<open>updateCacheFile\<close> after a
  status 200, for a file name the log line can be formatted with and a path in a
  directory that is there, replaces the cache file by the fetched list, whatever the file
  held, and leaves every other path as it was.
\<close>

lemma store_or_cache_writes:
  assumes ok: "format_ok f" and p: "path_of f = Some p"
    and first: "isCacheUpdateNeeded f default_frequency w0 = (Inr (Some True), w)"
    and mono: "mono (clock w0)"
    and wr: "p \<noteq> []" "\<not> is_dir (fs w0 p)" "dirname p = [] \<or> is_dir (fs w0 (dirname p))"
  shows "\<exists>w' t. store_or_cache f 200 subjects w = (Proceed subjects, w')
           \<and> fs w' = (fs w0)(p \<mapsto> File t (Some subjects))"
proof -
  have w: "w = snd (isCacheUpdateNeeded f default_frequency w0)" using first by simp
  have same: "fs w = fs w0" "clock w = clock w0" "strftime_s w = strftime_s w0"
    unfolding w by simp_all
  have t: "ticks w0 \<le> ticks w" unfolding w by (rule isCacheUpdateNeeded_ticks)
  have f1: "fst (isCacheUpdateNeeded f default_frequency w0) = Inr (Some True)"
    using first by simp
  have st: "fst (isCacheUpdateNeeded f default_frequency w) = Inr (Some True)"
    by (rule isCacheUpdateNeeded_later[OF ok f1 same t mono])
  have wr': "p \<noteq> []" "\<not> is_dir (fs w p)" "dirname p = [] \<or> is_dir (fs w (dirname p))"
    using wr same by simp_all
  define t where "t = \<lfloor>clock w (ticks (snd (isCacheUpdateNeeded f default_frequency w)))\<rfloor>"
  define w' where "w' = (snd (isCacheUpdateNeeded f default_frequency w))
       \<lparr>fs := (fs w)(p \<mapsto> File t (Some subjects))\<rparr>"
  have u: "updateCacheFile f subjects default_frequency w = (Inr (), w')"
    unfolding w'_def t_def by (rule updateCacheFile_writes[OF ok p st wr'])
  have "store_or_cache f 200 subjects w = (Proceed subjects, w')
      \<and> fs w' = (fs w0)(p \<mapsto> File t (Some subjects))"
    by (simp add: store_or_cache_def u) (simp add: w'_def same)
  then show ?thesis by blast
qed

section \<open>Properties of the filter compilation\<close>

lemma and_then_Inr_iff [simp]:
  "(and_then m f = Inr y) = (\<exists>x. m = Inr x \<and> f x = Inr y)"
  by (cases m) auto

lemma traverse_map:
  "(\<And>x. x \<in> set xs \<Longrightarrow> f x = Inr (g x)) \<Longrightarrow> traverse f xs = Inr (map g xs)"
  by (induction xs) auto

lemma traverse_all2:
  "traverse f xs = Inr ys \<Longrightarrow> list_all2 (\<lambda>x y. f x = Inr y) xs ys"
  by (induction xs arbitrary: ys) auto

lemma traverse_elem:
  "traverse f xs = Inr ys \<Longrightarrow> y \<in> set ys \<Longrightarrow> \<exists>x\<in>set xs. f x = Inr y"
  by (induction xs arbitrary: ys) auto

lemma rules_of_template_exclude:
  "rules_of (template_json ex inc) ''exclude'' b = Inr (map (pair_rule b) ex)"
proof -
  have "traverse (\<lambda>e. and_then (first_item e) (\<lambda>kv. Inr \<lparr>key = fst kv, val = snd kv, exclude = b\<rparr>))
          (map (\<lambda>kv. JObj [kv]) ex)
        = Inr (map (\<lambda>e. pair_rule b (case e of JObj (kv # r) \<Rightarrow> kv)) (map (\<lambda>kv. JObj [kv]) ex))"
    by (rule traverse_map) (auto simp: pair_rule_def)
  then show ?thesis
    by (simp add: rules_of_def template_json_def comp_def)
qed

lemma rules_of_template_include:
  "rules_of (template_json ex inc) ''include'' b = Inr (map (pair_rule b) inc)"
proof -
  have "traverse (\<lambda>e. and_then (first_item e) (\<lambda>kv. Inr \<lparr>key = fst kv, val = snd kv, exclude = b\<rparr>))
          (map (\<lambda>kv. JObj [kv]) inc)
        = Inr (map (\<lambda>e. pair_rule b (case e of JObj (kv # r) \<Rightarrow> kv)) (map (\<lambda>kv. JObj [kv]) inc))"
    by (rule traverse_map) (auto simp: pair_rule_def)
  then show ?thesis
    by (simp add: rules_of_def template_json_def comp_def)
qed

lemma excludes_includes_template:
  "excludes_includes (template_json ex inc) =
     Inr (map (pair_rule True) ex @ map (pair_rule False) inc)"
  by (simp add: excludes_includes_def rules_of_template_exclude rules_of_template_include)

lemma map_filter_id_Some: "List.map_filter id (map (\<lambda>x. Some (g x)) xs) = map g xs"
  by (induction xs) simp_all

lemma compile_filters_map:
  assumes "\<And>fi it. fi \<in> set fis \<Longrightarrow> it \<in> set items \<Longrightarrow> body fi it = Inr (Some (g fi it))"
  shows "compile_filters body (JArr fis) (JArr items)
         = Inr (concat (map (\<lambda>fi. map (g fi) items) fis))"
proof -
  have inner: "traverse (body fi) items = Inr (map (\<lambda>it. Some (g fi it)) items)"
    if "fi \<in> set fis" for fi
    using that assms by (intro traverse_map) simp
  have "traverse (\<lambda>fi. and_then (py_iter (JArr items)) (\<lambda>its.
                  and_then (traverse (body fi) its) (\<lambda>rs. Inr (List.map_filter id rs)))) fis
        = Inr (map (\<lambda>fi. map (g fi) items) fis)"
    by (rule traverse_map) (simp add: inner map_filter_id_Some)
  then show ?thesis by (simp add: compile_filters_def)
qed


lemma lastfm_ruleList_template:
  "lastfm_ruleList (template_json ex inc) (JStr n) =
     Inr (\<lparr>key = ''artist'', val = JStr (replace_amp (strip (lower n))), exclude = False\<rparr>
          # map (pair_rule True) ex @ map (pair_rule False) inc)"
  by (simp add: lastfm_ruleList_def clean_name_def excludes_includes_template)

lemma trakt_ruleList_show:
  "trakt_ruleList ''tv'' like (template_json ex inc) (show_item t) =
     Inr (Some (\<lparr>key = titleMatchMethod like, val = JStr (replace_amp (strip (lower t))),
                  exclude = False\<rparr>
          # map (pair_rule True) ex @ map (pair_rule False) inc))"
  by (simp add: trakt_ruleList_def show_item_def clean_name_def excludes_includes_template)


lemma goodreads_ruleList_template:
  "goodreads_ruleList like (template_json ex inc) item =
     Inr (Some (\<lparr>key = titleMatchMethod like, val = JNull, exclude = False\<rparr>
          # map (pair_rule True) ex @ map (pair_rule False) inc))"
  by (simp add: goodreads_ruleList_def excludes_includes_template)

lemma traverse_map_image:
  "(\<And>x. x \<in> set xs \<Longrightarrow> f (h x) = Inr (g x)) \<Longrightarrow> traverse f (map h xs) = Inr (map g xs)"
  by (induction xs) auto

lemma compile_filters_image:
  assumes "\<And>t n. t \<in> set ts \<Longrightarrow> n \<in> set ns \<Longrightarrow> body (F t) (I n) = Inr (Some (g t n))"
  shows "compile_filters body (JArr (map F ts)) (JArr (map I ns))
         = Inr (concat (map (\<lambda>t. map (g t) ns) ts))"
proof -
  have inner: "traverse (body (F t)) (map I ns) = Inr (map (\<lambda>n. Some (g t n)) ns)"
    if "t \<in> set ts" for t
    using that assms by (intro traverse_map_image) simp
  have "traverse (\<lambda>fi. and_then (py_iter (JArr (map I ns))) (\<lambda>its.
                  and_then (traverse (body fi) its) (\<lambda>rs. Inr (List.map_filter id rs))))
          (map F ts)
        = Inr (map (\<lambda>t. map (g t) ns) ts)"
    by (rule traverse_map_image) (simp add: inner map_filter_id_Some)
  then show ?thesis by (simp add: compile_filters_def)
qed

lemma lastfm_filters_templates:
  "lastfm_filters (JArr (map (\<lambda>t. template_json (fst t) (snd t)) ts)) (JArr (map JStr names)) =
     Inr (concat (map (\<lambda>t. map (\<lambda>n.
            \<lparr>key = ''artist'', val = JStr (replace_amp (strip (lower n))), exclude = False\<rparr>
            # map (pair_rule True) (fst t) @ map (pair_rule False) (snd t)) names) ts))"
  unfolding lastfm_filters_def
  by (rule compile_filters_image) (simp add: lastfm_ruleList_template)

lemma trakt_filters_shows:
  "trakt_filters ''tv'' like (JArr (map (\<lambda>t. template_json (fst t) (snd t)) ts))
       (JArr (map show_item names)) =
     Inr (concat (map (\<lambda>t. map (\<lambda>n.
            \<lparr>key = titleMatchMethod like, val = JStr (replace_amp (strip (lower n))),
              exclude = False\<rparr>
            # map (pair_rule True) (fst t) @ map (pair_rule False) (snd t)) names) ts))"
  unfolding trakt_filters_def
  by (rule compile_filters_image) (simp add: trakt_ruleList_show)


lemma goodreads_filters_templates:
  "goodreads_filters like (JArr (map (\<lambda>t. template_json (fst t) (snd t)) ts))
       (JArr (map JStr names)) =
     Inr (concat (map (\<lambda>t. map (\<lambda>n.
            \<lparr>key = titleMatchMethod like, val = JNull, exclude = False\<rparr>
            # map (pair_rule True) (fst t) @ map (pair_rule False) (snd t)) names) ts))"
  unfolding goodreads_filters_def
  by (rule compile_filters_image) (simp add: goodreads_ruleList_template)


lemma set_map_filter_id: "x \<in> set (List.map_filter id xs) \<longleftrightarrow> Some x \<in> set xs"
  by (induction xs) (auto split: option.splits)

lemma compile_filters_elem:
  assumes "compile_filters body F S = Inr outs" "rl \<in> set outs"
  shows "\<exists>fi it. body fi it = Inr (Some rl)"
proof -
  from assms(1) obtain fis rss where
    t: "traverse (\<lambda>fi. and_then (py_iter S) (\<lambda>items.
          and_then (traverse (body fi) items) (\<lambda>rs. Inr (List.map_filter id rs)))) fis = Inr rss"
    and l: "outs = concat rss"
    by (auto simp: compile_filters_def)
  from assms(2) l obtain rs where rs: "rs \<in> set rss" "rl \<in> set rs" by auto
  from traverse_elem[OF t rs(1)] obtain fi items rs' where
    i: "traverse (body fi) items = Inr rs'" "rs = List.map_filter id rs'"
    by auto
  from rs(2) i(2) have "Some rl \<in> set rs'" by (simp add: set_map_filter_id)
  from traverse_elem[OF i(1) this] show ?thesis by blast
qed

lemma first_item_Inr:
  "first_item e = Inr kv \<Longrightarrow> \<exists>rest. e = JObj (kv # rest)"
  by (cases e rule: first_item.cases) auto

lemma rules_of_pairs:
  assumes "rules_of fi name ex = Inr rs"
  shows "\<exists>v es. py_get fi name (JArr []) = Inr v \<and> py_iter v = Inr es \<and>
           list_all2 (\<lambda>e r. \<exists>kv rest. e = JObj (kv # rest) \<and> r = pair_rule ex kv) es rs"
proof -
  from assms obtain v es where
    g: "py_get fi name (JArr []) = Inr v" "py_iter v = Inr es"
    and t: "traverse (\<lambda>e. and_then (first_item e) (\<lambda>kv.
              Inr \<lparr>key = fst kv, val = snd kv, exclude = ex\<rparr>)) es = Inr rs"
    by (auto simp: rules_of_def)
  have "list_all2 (\<lambda>e r. \<exists>kv rest. e = JObj (kv # rest) \<and> r = pair_rule ex kv) es rs"
    using traverse_all2[OF t]
    by (rule list_all2_mono) (auto simp: pair_rule_def dest: first_item_Inr)
  with g show ?thesis by blast
qed

lemma excludes_includes_split:
  "excludes_includes fi = Inr rs \<Longrightarrow>
   \<exists>exs ins. rs = exs @ ins \<and> rules_of fi ''exclude'' True = Inr exs
     \<and> rules_of fi ''include'' False = Inr ins"
  by (auto simp: excludes_includes_def)

lemma lastfm_ruleList_split:
  "lastfm_ruleList fi a = Inr rl \<Longrightarrow>
   \<exists>h rs. rl = h # rs \<and> excludes_includes fi = Inr rs"
  by (auto simp: lastfm_ruleList_def)

lemma goodreads_ruleList_split:
  "goodreads_ruleList like fi it = Inr (Some rl) \<Longrightarrow>
   rl = \<lparr>key = titleMatchMethod like, val = JNull, exclude = False\<rparr> # tl rl
   \<and> excludes_includes fi = Inr (tl rl)"
  by (auto simp: goodreads_ruleList_def)

lemma trakt_ruleList_split:
  "trakt_ruleList ft like fi it = Inr (Some rl) \<Longrightarrow>
   \<exists>hs rs. rl = hs @ rs \<and> hs \<noteq> [] \<and> length hs \<le> 2 \<and> excludes_includes fi = Inr rs"
  by (auto simp: trakt_ruleList_def split: if_splits)

lemma norm_simon: "replace_amp (strip (lower ''Simon & Garfunkel'')) = ''simon and garfunkel''"
  by code_simp


lemma goodreads_clean_simon: "goodreads_clean ''Simon & Garfunkel'' = ''Simon and Garfunkel''"
  by code_simp

text \<open>
  C5. Every rule list the goodreads adapter emits starts with a rule whose value is
  \<^verbatim>\<open>None\<close>, the \<^verbatim>\<open>title\<close> the author loop never assigns, under the match key; the author
  is not in it.
\<close>

theorem goodreads_first_rule_unbound:
  assumes "goodreads_filters like majorFeedFilters goodreadsListResults = Inr outs"
    and "rl \<in> set outs"
  shows "rl \<noteq> [] \<and> hd rl = \<lparr>key = titleMatchMethod like, val = JNull, exclude = False\<rparr>"
proof -
  from compile_filters_elem[OF assms[unfolded goodreads_filters_def]]
  obtain fi it where "goodreads_ruleList like fi it = Inr (Some rl)" by blast
  from goodreads_ruleList_split[OF this]
  have "rl = \<lparr>key = titleMatchMethod like, val = JNull, exclude = False\<rparr> # tl rl" by blast
  then show ?thesis by (metis list.sel(1) list.distinct(1))
qed

theorem goodreads_first_rule_unbound_witness:
  "goodreads_filters (JBool False) (JArr [template_json [(''format'', JStr ''epub'')] []])
      (JArr [JStr ''Ursula K. Le Guin'']) =
     Inr [[\<lparr>key = ''title'', val = JNull, exclude = False\<rparr>,
           \<lparr>key = ''format'', val = JStr ''epub'', exclude = True\<rparr>]]
   \<and> hd [\<lparr>key = ''title'', val = JNull, exclude = False\<rparr>,
          \<lparr>key = ''format'', val = JStr ''epub'', exclude = True\<rparr>]
      = \<lparr>key = titleMatchMethod (JBool False), val = JNull, exclude = False\<rparr>"
proof -
  have e: "goodreads_filters (JBool False) (JArr [template_json [(''format'', JStr ''epub'')] []])
      (JArr [JStr ''Ursula K. Le Guin'']) =
     Inr [[\<lparr>key = ''title'', val = JNull, exclude = False\<rparr>,
           \<lparr>key = ''format'', val = JStr ''epub'', exclude = True\<rparr>]]"
    using goodreads_filters_templates[of "JBool False" "[([(''format'', JStr ''epub'')], [])]"
        "[''Ursula K. Le Guin'']"]
    by (simp add: titleMatchMethod_def pair_rule_def)
  from goodreads_first_rule_unbound[OF e, of "[\<lparr>key = ''title'', val = JNull, exclude = False\<rparr>,
           \<lparr>key = ''format'', val = JStr ''epub'', exclude = True\<rparr>]"]
  have "hd [\<lparr>key = ''title'', val = JNull, exclude = False\<rparr>,
          \<lparr>key = ''format'', val = JStr ''epub'', exclude = True\<rparr>]
      = \<lparr>key = titleMatchMethod (JBool False), val = JNull, exclude = False\<rparr>"
    by simp
  with e show ?thesis by blast
qed

lemma traverse_first_items:
  "list_all (\<lambda>e. e \<noteq> []) es \<Longrightarrow>
   traverse (\<lambda>e. and_then (first_item e) (\<lambda>kv. Inr \<lparr>key = fst kv, val = snd kv, exclude = b\<rparr>))
     (map JObj es) = Inr (first_pairs b es)"
  by (induction es) (auto simp: first_pairs_def pair_rule_def neq_Nil_conv)

lemma rules_of_elements:
  "list_all (\<lambda>e. e \<noteq> []) excl \<Longrightarrow>
   rules_of (elements_json excl incl) ''exclude'' b = Inr (first_pairs b excl)"
  "list_all (\<lambda>e. e \<noteq> []) incl \<Longrightarrow>
   rules_of (elements_json excl incl) ''include'' b = Inr (first_pairs b incl)"
  by (simp_all add: rules_of_def elements_json_def traverse_first_items)

lemma excludes_includes_elements:
  "list_all (\<lambda>e. e \<noteq> []) (excl @ incl) \<Longrightarrow>
   excludes_includes (elements_json excl incl) =
     Inr (first_pairs True excl @ first_pairs False incl)"
  by (simp add: excludes_includes_def rules_of_elements)

text \<open>
  C10. In every adapter the rules of a rule list that come from its filter template are one
  rule for each element of the template's \<^verbatim>\<open>"exclude"\<close> list followed by one for each
  element of its \<^verbatim>\<open>"include"\<close> list, each built from the first pair of its element;
  whatever else the element holds (\<open>rest\<close>) has no part in it. An element is taken with
  any number of pairs, as long as it has one: on a template whose elements are the
  non-empty lists of pairs \<open>excl\<close> and \<open>incl\<close>, every adapter emits the rule list, and its
  template part is \<open>first_pairs True excl @ first_pairs False incl\<close>.
\<close>

theorem template_rules_first_pair_only:
  "(rules_of fi name ex = Inr rs \<longrightarrow>
      (\<exists>v es. py_get fi name (JArr []) = Inr v \<and> py_iter v = Inr es \<and>
         list_all2 (\<lambda>e r. \<exists>kv rest. e = JObj (kv # rest)
                      \<and> r = \<lparr>key = fst kv, val = snd kv, exclude = ex\<rparr>) es rs))
   \<and> (lastfm_ruleList fi a = Inr rl \<longrightarrow>
        (\<exists>h exs ins. rl = h # exs @ ins \<and> rules_of fi ''exclude'' True = Inr exs
           \<and> rules_of fi ''include'' False = Inr ins))
   \<and> (trakt_ruleList ft like fi a = Inr (Some rl) \<longrightarrow>
        (\<exists>hs exs ins. rl = hs @ exs @ ins \<and> hs \<noteq> [] \<and> length hs \<le> 2
           \<and> rules_of fi ''exclude'' True = Inr exs \<and> rules_of fi ''include'' False = Inr ins))
   \<and> (goodreads_ruleList like fi a = Inr (Some rl) \<longrightarrow>
        (\<exists>h exs ins. rl = h # exs @ ins \<and> rules_of fi ''exclude'' True = Inr exs
           \<and> rules_of fi ''include'' False = Inr ins))
   \<and> (rss_filters (JArr fis) = Inr outs \<longrightarrow>
        list_all2 (\<lambda>fi rl. \<exists>exs ins. rl = exs @ ins \<and> rules_of fi ''exclude'' True = Inr exs
           \<and> rules_of fi ''include'' False = Inr ins) fis outs)
   \<and> (list_all (\<lambda>e. e \<noteq> []) (excl @ incl) \<longrightarrow>
        rules_of (elements_json excl incl) ''exclude'' True = Inr (first_pairs True excl)
        \<and> rules_of (elements_json excl incl) ''include'' False = Inr (first_pairs False incl)
        \<and> (\<exists>h. lastfm_ruleList (elements_json excl incl) (JStr subj) =
              Inr (h # first_pairs True excl @ first_pairs False incl))
        \<and> (\<exists>h. trakt_ruleList ''tv'' like (elements_json excl incl) (show_item subj) =
              Inr (Some (h # first_pairs True excl @ first_pairs False incl)))
        \<and> (\<exists>h. goodreads_ruleList like (elements_json excl incl) author =
              Inr (Some (h # first_pairs True excl @ first_pairs False incl)))
        \<and> rss_filters (JArr [elements_json excl incl]) =
              Inr [first_pairs True excl @ first_pairs False incl])"
proof (intro conjI impI)
  assume "rules_of fi name ex = Inr rs"
  from rules_of_pairs[OF this]
  show "\<exists>v es. py_get fi name (JArr []) = Inr v \<and> py_iter v = Inr es \<and>
         list_all2 (\<lambda>e r. \<exists>kv rest. e = JObj (kv # rest)
                      \<and> r = \<lparr>key = fst kv, val = snd kv, exclude = ex\<rparr>) es rs"
    by (simp add: pair_rule_def)
next
  assume "lastfm_ruleList fi a = Inr rl"
  from lastfm_ruleList_split[OF this] obtain h rs where
    "rl = h # rs" "excludes_includes fi = Inr rs" by blast
  with excludes_includes_split[of fi rs]
  show "\<exists>h exs ins. rl = h # exs @ ins \<and> rules_of fi ''exclude'' True = Inr exs
           \<and> rules_of fi ''include'' False = Inr ins" by blast
next
  assume "trakt_ruleList ft like fi a = Inr (Some rl)"
  from trakt_ruleList_split[OF this] obtain hs rs where
    "rl = hs @ rs" "hs \<noteq> []" "length hs \<le> 2" "excludes_includes fi = Inr rs" by blast
  with excludes_includes_split[of fi rs]
  show "\<exists>hs exs ins. rl = hs @ exs @ ins \<and> hs \<noteq> [] \<and> length hs \<le> 2
           \<and> rules_of fi ''exclude'' True = Inr exs \<and> rules_of fi ''include'' False = Inr ins"
    by blast
next
  assume "goodreads_ruleList like fi a = Inr (Some rl)"
  from goodreads_ruleList_split[OF this] obtain h where
    "rl = h # tl rl" "excludes_includes fi = Inr (tl rl)" by blast
  with excludes_includes_split[of fi "tl rl"]
  show "\<exists>h exs ins. rl = h # exs @ ins \<and> rules_of fi ''exclude'' True = Inr exs
           \<and> rules_of fi ''include'' False = Inr ins" by metis
next
  assume "rss_filters (JArr fis) = Inr outs"
  then have "traverse excludes_includes fis = Inr outs" by (simp add: rss_filters_def)
  from traverse_all2[OF this]
  show "list_all2 (\<lambda>fi rl. \<exists>exs ins. rl = exs @ ins \<and> rules_of fi ''exclude'' True = Inr exs
           \<and> rules_of fi ''include'' False = Inr ins) fis outs"
    by (rule list_all2_mono) (auto dest: excludes_includes_split)
next
  assume ne: "list_all (\<lambda>e. e \<noteq> []) (excl @ incl)"
  then have ne2: "list_all (\<lambda>e. e \<noteq> []) excl" "list_all (\<lambda>e. e \<noteq> []) incl" by simp_all
  note ei = excludes_includes_elements[OF ne]
  show "rules_of (elements_json excl incl) ''exclude'' True = Inr (first_pairs True excl)"
    by (rule rules_of_elements(1)[OF ne2(1)])
  show "rules_of (elements_json excl incl) ''include'' False = Inr (first_pairs False incl)"
    by (rule rules_of_elements(2)[OF ne2(2)])
  show "\<exists>h. lastfm_ruleList (elements_json excl incl) (JStr subj) =
              Inr (h # first_pairs True excl @ first_pairs False incl)"
    by (simp add: lastfm_ruleList_def clean_name_def ei)
  show "\<exists>h. trakt_ruleList ''tv'' like (elements_json excl incl) (show_item subj) =
              Inr (Some (h # first_pairs True excl @ first_pairs False incl))"
    by (simp add: trakt_ruleList_def show_item_def clean_name_def ei)
  show "\<exists>h. goodreads_ruleList like (elements_json excl incl) author =
              Inr (Some (h # first_pairs True excl @ first_pairs False incl))"
    by (simp add: goodreads_ruleList_def ei)
  show "rss_filters (JArr [elements_json excl incl]) =
              Inr [first_pairs True excl @ first_pairs False incl]"
    by (simp add: rss_filters_def ei)
qed

theorem template_rules_first_pair_only_witness:
  "list_all (\<lambda>e. e \<noteq> []) ([three_pair_element] @ [two_pair_element])
   \<and> rules_of (elements_json [three_pair_element] [two_pair_element]) ''exclude'' True =
       Inr [\<lparr>key = ''source'', val = JStr ''ts'', exclude = True\<rparr>]
   \<and> rules_of (elements_json [three_pair_element] [two_pair_element]) ''include'' False =
       Inr [\<lparr>key = ''source'', val = JStr ''web'', exclude = False\<rparr>]
   \<and> rss_filters (JArr [elements_json [three_pair_element] [two_pair_element]]) =
       Inr [[\<lparr>key = ''source'', val = JStr ''ts'', exclude = True\<rparr>,
             \<lparr>key = ''source'', val = JStr ''web'', exclude = False\<rparr>]]"
proof -
  have ne: "list_all (\<lambda>e. e \<noteq> []) ([three_pair_element] @ [two_pair_element])"
    by (simp add: three_pair_element_def two_pair_element_def)
  have fp: "first_pairs True [three_pair_element] =
      [\<lparr>key = ''source'', val = JStr ''ts'', exclude = True\<rparr>]"
    "first_pairs False [two_pair_element] =
      [\<lparr>key = ''source'', val = JStr ''web'', exclude = False\<rparr>]"
    by (simp_all add: first_pairs_def pair_rule_def three_pair_element_def
        two_pair_element_def)
  note t = template_rules_first_pair_only[where excl = "[three_pair_element]"
      and incl = "[two_pair_element]", THEN conjunct2, THEN conjunct2, THEN conjunct2,
      THEN conjunct2, THEN conjunct2, THEN mp, OF ne]
  have a: "rules_of (elements_json [three_pair_element] [two_pair_element]) ''exclude'' True =
       Inr [\<lparr>key = ''source'', val = JStr ''ts'', exclude = True\<rparr>]"
    using t[THEN conjunct1] by (simp add: fp)
  have b: "rules_of (elements_json [three_pair_element] [two_pair_element]) ''include'' False =
       Inr [\<lparr>key = ''source'', val = JStr ''web'', exclude = False\<rparr>]"
    using t[THEN conjunct2, THEN conjunct1] by (simp add: fp)
  have c: "rss_filters (JArr [elements_json [three_pair_element] [two_pair_element]]) =
       Inr [[\<lparr>key = ''source'', val = JStr ''ts'', exclude = True\<rparr>,
             \<lparr>key = ''source'', val = JStr ''web'', exclude = False\<rparr>]]"
    using t[THEN conjunct2, THEN conjunct2, THEN conjunct2, THEN conjunct2, THEN conjunct2]
    by (simp add: fp)
  from ne a b c show ?thesis by blast
qed







lemma lastfm_ruleList_head:
  "lastfm_ruleList fi (JStr s) = Inr rl \<Longrightarrow>
   hd rl = \<lparr>key = ''artist'', val = JStr (replace_amp (strip (lower s))), exclude = False\<rparr>"
  by (auto simp: lastfm_ruleList_def clean_name_def)

lemma trakt_ruleList_show_head:
  "trakt_ruleList ''tv'' like fi (show_item s) = Inr (Some rl) \<Longrightarrow>
   hd rl = \<lparr>key = titleMatchMethod like, val = JStr (replace_amp (strip (lower s))),
            exclude = False\<rparr>"
  by (auto simp: trakt_ruleList_def show_item_def clean_name_def split: if_splits)

lemma trakt_ruleList_movie_head:
  "trakt_ruleList ''movie'' like fi (movie_item s y) = Inr (Some rl) \<Longrightarrow>
   hd rl = \<lparr>key = titleMatchMethod like, val = JStr (replace_amp (strip (lower s))),
            exclude = False\<rparr>"
  by (auto simp: trakt_ruleList_def movie_item_def clean_name_def split: if_splits)

text \<open>
  The last.fm and trakt adapters bind, in the first rule of every rule list, the subject
  lower-cased, then trimmed, then with \<^verbatim>\<open>" & "\<close> replaced by \<^verbatim>\<open>" and "\<close>;
  \<^verbatim>\<open>"Simon & Garfunkel"\<close> is bound as \<^verbatim>\<open>"simon and garfunkel"\<close> in both.
\<close>

lemma lastfm_trakt_subject_normalized:
  "(lastfm_ruleList fi (JStr s) = Inr rl \<longrightarrow>
      hd rl = \<lparr>key = ''artist'', val = JStr (replace_amp (strip (lower s))), exclude = False\<rparr>)
   \<and> (trakt_ruleList ''tv'' like fi (show_item s) = Inr (Some rl) \<longrightarrow>
      hd rl = \<lparr>key = titleMatchMethod like, val = JStr (replace_amp (strip (lower s))),
               exclude = False\<rparr>)
   \<and> (trakt_ruleList ''movie'' like fi (movie_item s y) = Inr (Some rl) \<longrightarrow>
      hd rl = \<lparr>key = titleMatchMethod like, val = JStr (replace_amp (strip (lower s))),
               exclude = False\<rparr>)
   \<and> lastfm_filters (templates_json [([], [])]) (JArr [JStr ''Simon & Garfunkel'']) =
       Inr [[\<lparr>key = ''artist'', val = JStr ''simon and garfunkel'', exclude = False\<rparr>]]
   \<and> trakt_filters ''tv'' like (templates_json [([], [])])
         (JArr [show_item ''Simon & Garfunkel'']) =
       Inr [[\<lparr>key = titleMatchMethod like, val = JStr ''simon and garfunkel'',
              exclude = False\<rparr>]]"
proof (intro conjI impI)
  show "lastfm_filters (templates_json [([], [])]) (JArr [JStr ''Simon & Garfunkel'']) =
       Inr [[\<lparr>key = ''artist'', val = JStr ''simon and garfunkel'', exclude = False\<rparr>]]"
    using lastfm_filters_templates[of "[([], [])]" "[''Simon & Garfunkel'']"]
    by (simp add: templates_json_def norm_simon)
  show "trakt_filters ''tv'' like (templates_json [([], [])])
         (JArr [show_item ''Simon & Garfunkel'']) =
       Inr [[\<lparr>key = titleMatchMethod like, val = JStr ''simon and garfunkel'',
              exclude = False\<rparr>]]"
    using trakt_filters_shows[of like "[([], [])]" "[''Simon & Garfunkel'']"]
    by (simp add: templates_json_def norm_simon)
qed (erule lastfm_ruleList_head trakt_ruleList_show_head trakt_ruleList_movie_head)+

text \<open>
  C4. The goodreads adapter does not normalize its subjects as the claim says, where the
  last.fm and trakt adapters do: it trims the author \<^verbatim>\<open>"Simon & Garfunkel"\<close> of a reply
  and replaces \<^verbatim>\<open>" & "\<close>, but does not lower-case it, so the subject it keeps is
  \<^verbatim>\<open>"Simon and Garfunkel"\<close>; and the rule it compiles for that subject binds \<^verbatim>\<open>None\<close>,
  not the author.
\<close>

theorem goodreads_subject_not_normalized:
  "goodreads_authors [Some ''Simon & Garfunkel''] = JArr [JStr ''Simon and Garfunkel'']
   \<and> goodreads_filters (JBool False) (templates_json [([], [])])
        (goodreads_authors [Some ''Simon & Garfunkel'']) =
      Inr [[\<lparr>key = ''title'', val = JNull, exclude = False\<rparr>]]"
proof -
  have a: "goodreads_authors [Some ''Simon & Garfunkel''] = JArr [JStr ''Simon and Garfunkel'']"
    by (simp add: goodreads_authors_def goodreads_clean_simon)
  have "goodreads_filters (JBool False) (templates_json [([], [])])
        (JArr (map JStr [''Simon and Garfunkel''])) =
      Inr [[\<lparr>key = ''title'', val = JNull, exclude = False\<rparr>]]"
    using goodreads_filters_templates[of "JBool False" "[([], [])]" "[''Simon and Garfunkel'']"]
    by (simp add: templates_json_def titleMatchMethod_def)
  with a show ?thesis by simp
qed

section \<open>Properties of the adapters\<close>

lemma then_do_Proceed_iff [simp]:
  "(then_do r k = (Proceed y, s')) = (\<exists>x s. r = (Proceed x, s) \<and> k x s = (Proceed y, s'))"
  by (cases r; cases "fst r") (auto simp: then_do_def)

lemma flow_bind_Proceed_iff [simp]:
  "(flow_bind m f = Proceed y) = (\<exists>x. m = Proceed x \<and> f x = Proceed y)"
  by (cases m) auto

lemma try_continue_Proceed_iff [simp]:
  "(try_continue cs r = Proceed x) = (r = Inr x)"
  by (cases r) (auto simp: try_continue_def)

lemma try_continue_all_Proceed_iff [simp]:
  "(try_continue_all r = Proceed x) = (r = Inr x)"
  by (cases r) (auto simp: try_continue_all_def)

lemma try_abort_Proceed_iff [simp]:
  "(try_abort r = Proceed x) = (r = Inr x)"
  by (cases r) (auto simp: try_abort_def)

lemma traverse_fail:
  "x \<in> set xs \<Longrightarrow> f x = Inl e \<Longrightarrow> \<exists>e'. traverse f xs = Inl e'"
proof (induction xs)
  case Nil
  then show ?case by simp
next
  case (Cons a xs)
  show ?case
  proof (cases "f a")
    case (Inl e1)
    then show ?thesis by simp
  next
    case (Inr y)
    show ?thesis
    proof (cases "x = a")
      case True
      then show ?thesis using Cons.prems Inr by simp
    next
      case False
      then obtain e' where "traverse f xs = Inl e'" using Cons by auto
      then show ?thesis using Inr by simp
    qed
  qed
qed

lemma collect_minorFeeds_Proceed:
  assumes "py_get d ''minorFeeds'' (JArr []) = Inr (JArr mfs)"
  shows "(collect_minorFeeds pf d = Proceed out) = (traverse (parse_minorFeed pf) mfs = Inr out)"
  using assms by (cases mfs) (auto simp: collect_minorFeeds_def)

lemma descriptor_rest_minorFeeds:
  "descriptor_rest pf d name = Proceed feed \<Longrightarrow>
   collect_minorFeeds pf d = Proceed (minorFeeds feed) \<and> feedName feed = name"
  by (auto simp: descriptor_rest_def)

lemma lastfmRecord_feed:
  assumes "lastfmRecord fuel pf mk get cd cf d w = Some (Proceed (k, v), w')"
  shows "k = feedName v \<and> collect_minorFeeds pf d = Proceed (minorFeeds v)"
proof -
  from assms obtain f feed w1 r where
    h: "lastfm_head pf mk cd cf d w = (Proceed (f, feed), w1)"
    and r: "then_do r (\<lambda>artists w2.
                 then_do (try_continue_all
                            (lastfm_filters (field d ''filters'' (JArr [])) artists), w2)
                   (\<lambda>feedFilterList w2.
                      (Proceed (feedName feed, feed\<lparr>feedFilters := feedFilterList\<rparr>), w2)))
          = (Proceed (k, v), w')"
    by (auto simp: lastfmRecord_def split: prod.splits flow.splits option.splits)
  from r obtain fl where kv: "k = feedName feed" "v = feed\<lparr>feedFilters := fl\<rparr>" by auto
  from h obtain name where "descriptor_rest pf d name = Proceed feed"
    by (auto simp: lastfm_head_def)
  from descriptor_rest_minorFeeds[OF this] kv show ?thesis by simp
qed

lemma traktRecord_feed:
  assumes "traktRecord pf mk get cd cf d w = (Proceed (k, v), w')"
  shows "k = cf @ ''.'' @ feedName v \<and> collect_minorFeeds pf d = Proceed (minorFeeds v)"
  using assms by (auto simp: traktRecord_def dest!: descriptor_rest_minorFeeds)

lemma goodreadsRecord_feed:
  assumes "goodreadsRecord pf mk get cd cf d w = (Proceed (k, v), w')"
  shows "k = cf @ ''.'' @ feedName v \<and> collect_minorFeeds pf d = Proceed (minorFeeds v)"
  using assms by (auto simp: goodreadsRecord_def dest!: descriptor_rest_minorFeeds)

lemma rssRecord_feed:
  assumes "rssRecord pf cf el = Proceed (k, v)"
  shows "k = cf @ ''.'' @ feedName v \<and>
    (\<exists>d. py_get el ''majorFeed'' JNull = Inr d \<and> collect_minorFeeds pf d = Proceed (minorFeeds v))"
  using assms
  by (auto simp: rssRecord_def to_unicode_def dest!: descriptor_rest_minorFeeds split: if_splits)

lemma text_field_text_or_absent:
  "text_or_absent kvs k dflt s \<Longrightarrow> text_field (JObj kvs) k dflt = Inr (strip s)"
  by (auto simp: text_or_absent_def text_field_def split: option.splits)

lemma parse_minorFeed_texts:
  assumes "text_or_absent kvs ''url'' [] u"
    and "text_or_absent kvs ''minTime'' ''0'' t" and "py_int (strip t) = Some i"
    and "text_or_absent kvs ''minRatio'' ''0.0'' r" and "pf (strip r) = Some x"
    and "text_or_absent kvs ''comparison'' ''or'' c"
  shows "parse_minorFeed pf (JObj kvs) =
    Inr \<lparr>url = strip u, minTime = i, minRatio = x, comparison = strip c\<rparr>"
  using assms
  by (simp add: parse_minorFeed_def text_field_text_or_absent or_ValueError_def)

lemma strip_defaults: "strip ''0'' = ''0''" "strip ''0.0'' = ''0.0''" "strip ''or'' = ''or''"
  "strip [] = []"
  by code_simp+

lemma py_int_zero: "py_int ''0'' = Some 0"
  by code_simp

lemma parse_minorFeed_defaults:
  "pf ''0.0'' = Some z \<Longrightarrow>
   parse_minorFeed pf (JObj []) = Inr \<lparr>url = [], minTime = 0, minRatio = z, comparison = ''or''\<rparr>"
  by (simp add: parse_minorFeed_def text_field_def strip_defaults py_int_zero or_ValueError_def)

lemma traverse_total:
  "(\<And>x. x \<in> set xs \<Longrightarrow> \<exists>y. f x = Inr y) \<Longrightarrow> \<exists>ys. traverse f xs = Inr ys"
proof (induction xs)
  case Nil
  then show ?case by simp
next
  case (Cons a xs)
  then obtain y ys where "f a = Inr y" "traverse f xs = Inr ys" by (metis list.set_intros)
  then show ?case by simp
qed

text \<open>
  C8 (as amended). In a record whose minor feeds are a list: when one entry fails to
  parse (any exception of its \<^verbatim>\<open>url\<close>, \<^verbatim>\<open>minTime\<close>, \<^verbatim>\<open>minRatio\<close> or \<^verbatim>\<open>comparison\<close>), the
  minor feeds are abandoned as a whole and no adapter stores an entry for the record.
  When every entry is a dict whose four parts are each left out or a text, the \<^verbatim>\<open>minTime\<close>
  text one \<^verbatim>\<open>int\<close> accepts and the \<^verbatim>\<open>minRatio\<close> text one \<^verbatim>\<open>float\<close> accepts, the record is
  not abandoned at this step and every entry is taken in, trimmed; the parts left out
  are \<^verbatim>\<open>""\<close>, \<^verbatim>\<open>0\<close>, \<^verbatim>\<open>float("0.0")\<close> and \<^verbatim>\<open>"or"\<close>.
\<close>

theorem minorFeeds_all_or_nothing:
  assumes mf: "py_get d ''minorFeeds'' (JArr []) = Inr (JArr mfs)"
  shows "((\<exists>m\<in>set mfs. \<exists>e. parse_minorFeed pf m = Inl e) \<longrightarrow>
            (\<forall>out. collect_minorFeeds pf d \<noteq> Proceed out)
          \<and> (\<forall>fuel mk get cd cf w kv w'.
                lastfmRecord fuel pf mk get cd cf d w \<noteq> Some (Proceed kv, w'))
          \<and> (\<forall>mk get cd cf w kv w'. traktRecord pf mk get cd cf d w \<noteq> (Proceed kv, w'))
          \<and> (\<forall>mk get cd cf w kv w'. goodreadsRecord pf mk get cd cf d w \<noteq> (Proceed kv, w'))
          \<and> (\<forall>cf el kv. py_get el ''majorFeed'' JNull = Inr d \<longrightarrow>
                rssRecord pf cf el \<noteq> Proceed kv))
    \<and> ((\<forall>m\<in>set mfs. \<exists>kvs u t r c i x. m = JObj kvs
            \<and> text_or_absent kvs ''url'' [] u
            \<and> text_or_absent kvs ''minTime'' ''0'' t \<and> py_int (strip t) = Some i
            \<and> text_or_absent kvs ''minRatio'' ''0.0'' r \<and> pf (strip r) = Some x
            \<and> text_or_absent kvs ''comparison'' ''or'' c) \<longrightarrow>
          (\<exists>out. collect_minorFeeds pf d = Proceed out
             \<and> list_all2 (\<lambda>m p. parse_minorFeed pf m = Inr p) mfs out))
    \<and> (\<forall>kvs u t r c i x. text_or_absent kvs ''url'' [] u
            \<and> text_or_absent kvs ''minTime'' ''0'' t \<and> py_int (strip t) = Some i
            \<and> text_or_absent kvs ''minRatio'' ''0.0'' r \<and> pf (strip r) = Some x
            \<and> text_or_absent kvs ''comparison'' ''or'' c \<longrightarrow>
          parse_minorFeed pf (JObj kvs) =
            Inr \<lparr>url = strip u, minTime = i, minRatio = x, comparison = strip c\<rparr>)
    \<and> (\<forall>z. pf ''0.0'' = Some z \<longrightarrow>
          parse_minorFeed pf (JObj []) =
            Inr \<lparr>url = [], minTime = 0, minRatio = z, comparison = ''or''\<rparr>)"
proof (intro conjI impI allI)
  assume bad: "\<exists>m\<in>set mfs. \<exists>e. parse_minorFeed pf m = Inl e"
  then obtain e' where "traverse (parse_minorFeed pf) mfs = Inl e'"
    using traverse_fail[of _ mfs "parse_minorFeed pf"] by blast
  then have no: "collect_minorFeeds pf d \<noteq> Proceed out" for out
    using collect_minorFeeds_Proceed[OF mf, of pf out] by simp
  show "collect_minorFeeds pf d \<noteq> Proceed out" for out by (rule no)
  show "lastfmRecord fuel pf mk get cd cf d w \<noteq> Some (Proceed kv, w')"
    for fuel mk get cd cf w kv w'
    using lastfmRecord_feed[of fuel pf mk get cd cf d w "fst kv" "snd kv" w'] no by auto
  show "traktRecord pf mk get cd cf d w \<noteq> (Proceed kv, w')" for mk get cd cf w kv w'
    using traktRecord_feed[of pf mk get cd cf d w "fst kv" "snd kv" w'] no by auto
  show "goodreadsRecord pf mk get cd cf d w \<noteq> (Proceed kv, w')" for mk get cd cf w kv w'
    using goodreadsRecord_feed[of pf mk get cd cf d w "fst kv" "snd kv" w'] no by auto
  show "rssRecord pf cf el \<noteq> Proceed kv" if "py_get el ''majorFeed'' JNull = Inr d"
    for cf el kv
    using rssRecord_feed[of pf cf el "fst kv" "snd kv"] no that by auto
next
  assume good: "\<forall>m\<in>set mfs. \<exists>kvs u t r c i x. m = JObj kvs
            \<and> text_or_absent kvs ''url'' [] u
            \<and> text_or_absent kvs ''minTime'' ''0'' t \<and> py_int (strip t) = Some i
            \<and> text_or_absent kvs ''minRatio'' ''0.0'' r \<and> pf (strip r) = Some x
            \<and> text_or_absent kvs ''comparison'' ''or'' c"
  have "\<exists>y. parse_minorFeed pf m = Inr y" if "m \<in> set mfs" for m
  proof -
    from good that obtain kvs u t r c i x where "m = JObj kvs"
      "text_or_absent kvs ''url'' [] u"
      "text_or_absent kvs ''minTime'' ''0'' t" "py_int (strip t) = Some i"
      "text_or_absent kvs ''minRatio'' ''0.0'' r" "pf (strip r) = Some x"
      "text_or_absent kvs ''comparison'' ''or'' c"
      by metis
    then show ?thesis by (simp add: parse_minorFeed_texts)
  qed
  then obtain out where t: "traverse (parse_minorFeed pf) mfs = Inr out"
    using traverse_total[of mfs "parse_minorFeed pf"] by blast
  then have "collect_minorFeeds pf d = Proceed out"
    using collect_minorFeeds_Proceed[OF mf, of pf out] by simp
  with traverse_all2[OF t]
  show "\<exists>out. collect_minorFeeds pf d = Proceed out
             \<and> list_all2 (\<lambda>m p. parse_minorFeed pf m = Inr p) mfs out"
    by blast
next
  fix kvs u t r c i x
  assume "text_or_absent kvs ''url'' [] u
            \<and> text_or_absent kvs ''minTime'' ''0'' t \<and> py_int (strip t) = Some i
            \<and> text_or_absent kvs ''minRatio'' ''0.0'' r \<and> pf (strip r) = Some x
            \<and> text_or_absent kvs ''comparison'' ''or'' c"
  then show "parse_minorFeed pf (JObj kvs) =
            Inr \<lparr>url = strip u, minTime = i, minRatio = x, comparison = strip c\<rparr>"
    by (elim conjE) (rule parse_minorFeed_texts)
next
  fix z assume "pf ''0.0'' = Some z"
  then show "parse_minorFeed pf (JObj []) =
            Inr \<lparr>url = [], minTime = 0, minRatio = z, comparison = ''or''\<rparr>"
    by (rule parse_minorFeed_defaults)
qed

lemma strip_lower_samples:
  "strip (lower ''news'') = ''news''" "strip (lower ''none'') = ''none''"
  "strip ''/d'' = ''/d''" "strip (lower ''rock'') = ''rock''" "strip (lower ''music'') = ''music''"
  "strip '' http://t/rss '' = ''http://t/rss''" "strip ''24'' = ''24''"
  "strip ''http://t/rss'' = ''http://t/rss''"
  by code_simp+

lemma py_int_24: "py_int ''24'' = Some 24"
  by code_simp

lemma feed_typed_fails: "parse_minorFeed pf feed_typed = Inl AttributeError"
  by (simp add: parse_minorFeed_def feed_typed_def text_field_def strip_lower_samples)

lemma collect_typed:
  "collect_minorFeeds pf (JObj [(''list_name'', JStr name), (''feedDestination'', JStr ''/d''),
                  (''minorFeeds'', JArr [feed_typed])]) = Abort AttributeError"
  by (simp add: collect_minorFeeds_def feed_typed_fails try_continue_def isinstance_def)

lemma rss_typed_record:
  "rssRecord pf ''a.json'' (rss_element ''news'' [feed_typed]) = Abort AttributeError"
  by (simp add: rssRecord_def rss_element_def try_abort_def required_parts_def
      get_feedName_def try_continue_def strip_lower_samples descriptor_rest_def
      get_feedType_def get_feedDestination_def collect_typed)

lemma endswith_a: "endswith_json ''a.json''" "endswith_json ''b.json''"
  by (simp_all add: endswith_json_def)

text \<open>
  The second half of the claim as stated fails: a minor feed whose \<^verbatim>\<open>minTime\<close> is an
  integer and whose \<^verbatim>\<open>minRatio\<close> is a float, the declared types, raises
  \<^verbatim>\<open>AttributeError\<close> at \<^verbatim>\<open>.strip()\<close>; the record is abandoned and \<^verbatim>\<open>readRSS\<close> returns no
  entry for it.
\<close>

theorem minorFeeds_typed_counterexample:
  "parse_minorFeed sample_float feed_typed = Inl AttributeError
   \<and> rssRecord sample_float ''a.json'' (rss_element ''news'' [feed_typed])
       = Abort AttributeError
   \<and> readRSS sample_float (Some [(''a.json'', Some (JArr [rss_element ''news'' [feed_typed]]))])
       = Inr Map.empty"
  by (simp add: feed_typed_fails rss_typed_record readRSS_def endswith_a)

theorem minorFeeds_all_or_nothing_witness:
  "py_get (JObj [(''minorFeeds'', JArr [feed_texts])]) ''minorFeeds'' (JArr [])
     = Inr (JArr [feed_texts])
   \<and> parse_minorFeed sample_float feed_texts =
       Inr \<lparr>url = ''http://t/rss'', minTime = 24, minRatio = 0, comparison = ''or''\<rparr>
   \<and> (\<exists>out. collect_minorFeeds sample_float (JObj [(''minorFeeds'', JArr [feed_texts])])
               = Proceed out
          \<and> list_all2 (\<lambda>m p. parse_minorFeed sample_float m = Inr p) [feed_texts] out)"
proof -
  have g: "py_get (JObj [(''minorFeeds'', JArr [feed_texts])]) ''minorFeeds'' (JArr [])
     = Inr (JArr [feed_texts])" by simp
  have parts: "text_or_absent [(''url'', JStr '' http://t/rss ''), (''minTime'', JStr ''24'')]
        ''url'' [] '' http://t/rss ''
      \<and> text_or_absent [(''url'', JStr '' http://t/rss ''), (''minTime'', JStr ''24'')]
        ''minTime'' ''0'' ''24''
      \<and> py_int (strip ''24'') = Some 24
      \<and> text_or_absent [(''url'', JStr '' http://t/rss ''), (''minTime'', JStr ''24'')]
        ''minRatio'' ''0.0'' ''0.0''
      \<and> sample_float (strip ''0.0'') = Some 0
      \<and> text_or_absent [(''url'', JStr '' http://t/rss ''), (''minTime'', JStr ''24'')]
        ''comparison'' ''or'' ''or''"
    by (simp add: text_or_absent_def strip_lower_samples strip_defaults py_int_24
        sample_float_def)
  from minorFeeds_all_or_nothing[OF g, of sample_float] parts
  have p: "parse_minorFeed sample_float feed_texts =
       Inr \<lparr>url = strip '' http://t/rss '', minTime = 24, minRatio = 0,
             comparison = strip ''or''\<rparr>"
    unfolding feed_texts_def by blast
  have "\<forall>m\<in>set [feed_texts]. \<exists>kvs u t r c i x. m = JObj kvs
            \<and> text_or_absent kvs ''url'' [] u
            \<and> text_or_absent kvs ''minTime'' ''0'' t \<and> py_int (strip t) = Some i
            \<and> text_or_absent kvs ''minRatio'' ''0.0'' r \<and> sample_float (strip r) = Some x
            \<and> text_or_absent kvs ''comparison'' ''or'' c"
    using parts by (auto simp: feed_texts_def)
  with minorFeeds_all_or_nothing[OF g, of sample_float]
  have c: "\<exists>out. collect_minorFeeds sample_float (JObj [(''minorFeeds'', JArr [feed_texts])])
               = Proceed out
          \<and> list_all2 (\<lambda>m p. parse_minorFeed sample_float m = Inr p) [feed_texts] out"
    by blast
  from g p c show ?thesis by (simp add: strip_lower_samples strip_defaults)
qed

lemma run_records_two:
  "step d1 s = (Proceed (k, v1), s1) \<Longrightarrow> step d2 s1 = (Proceed (k, v2), s2) \<Longrightarrow>
   run_records step [d1, d2] m s = (m(k \<mapsto> v2), s2)"
  by simp

lemma lastfm_records_two:
  "step d1 w = Some (Proceed (k, v1), w1) \<Longrightarrow> step d2 w1 = Some (Proceed (k, v2), w2) \<Longrightarrow>
   lastfm_records step [d1, d2] m w = Some (m(k \<mapsto> v2), w2)"
  by simp

lemma composite_keys_differ: "c1 \<noteq> c2 \<Longrightarrow> c1 @ ''.'' @ n \<noteq> c2 @ ''.'' @ (n :: string)"
  by simp

lemma readRSS_two_files:
  assumes "rssRecord pf c1 e1 = Proceed (ka, va)" "rssRecord pf c2 e2 = Proceed (kb, vb)"
    and "endswith_json c1" "endswith_json c2"
  shows "readRSS pf (Some [(c1, Some (JArr [e1])), (c2, Some (JArr [e2]))])
         = Inr [ka \<mapsto> va, kb \<mapsto> vb]"
  using assms by (simp add: readRSS_def)

lemma readTraktTV_two_files:
  assumes "traktRecord pf mk get cd c1 e1 w = (Proceed (ka, va), w1)"
    "traktRecord pf mk get cd c2 e2 w1 = (Proceed (kb, vb), w2)"
    and "endswith_json c1" "endswith_json c2"
  shows "readTraktTV pf mk get cd (Some [(c1, Some (JArr [e1])), (c2, Some (JArr [e2]))]) w
         = ([ka \<mapsto> va, kb \<mapsto> vb], w2)"
  using assms by (simp add: readTraktTV_def)

lemma readGoodreads_two_files:
  assumes "goodreadsRecord pf mk get cd c1 e1 w = (Proceed (ka, va), w1)"
    "goodreadsRecord pf mk get cd c2 e2 w1 = (Proceed (kb, vb), w2)"
    and "endswith_json c1" "endswith_json c2"
  shows "readGoodreads pf mk get cd (Some [(c1, Some (JArr [e1])), (c2, Some (JArr [e2]))]) w
         = ([ka \<mapsto> va, kb \<mapsto> vb], w2)"
  using assms by (simp add: readGoodreads_def)

lemma readLastfmArtists_two_files:
  assumes "lastfmRecord fuel pf mk get cd c1 e1 w = Some (Proceed (ka, va), w1)"
    "lastfmRecord fuel pf mk get cd c2 e2 w1 = Some (Proceed (kb, vb), w2)"
    and "endswith_json c1" "endswith_json c2"
  shows "readLastfmArtists fuel pf mk get cd
           (Some [(c1, Some (JArr [e1])), (c2, Some (JArr [e2]))]) w
         = Some ([ka \<mapsto> va, kb \<mapsto> vb], w2)"
  using assms by (simp add: readLastfmArtists_def)

text \<open>
  C9 (as amended). The last.fm adapter stores every entry under the bare feed name, the
  other three under \<^verbatim>\<open>configFile + "." + feedName\<close>. In one run a record that yields a
  key already present replaces the earlier entry. Two descriptor files that define the
  same feed name leave two entries in the trakt, goodreads and RSS adapters, one under
  each composite key, and one entry in the last.fm adapter, the later file's, under the
  bare feed name.
\<close>

theorem registry_keys:
  "(lastfmRecord fuel pf mk lget cd cf d w = Some (Proceed (k, v), w') \<longrightarrow> k = feedName v)
   \<and> (traktRecord pf mk tget cd cf d w = (Proceed (k, v), w') \<longrightarrow> k = cf @ ''.'' @ feedName v)
   \<and> (goodreadsRecord pf mk gget cd cf d w = (Proceed (k, v), w') \<longrightarrow>
        k = cf @ ''.'' @ feedName v)
   \<and> (rssRecord pf cf d = Proceed (k, v) \<longrightarrow> k = cf @ ''.'' @ feedName v)
   \<and> (step d1 s = (Proceed (k1, v1), s1) \<and> step d2 s1 = (Proceed (k1, v2), s2) \<longrightarrow>
        run_records step [d1, d2] m s = (m(k1 \<mapsto> v2), s2))
   \<and> (lstep d1 w = Some (Proceed (k1, v1), w1) \<and> lstep d2 w1 = Some (Proceed (k1, v2), w2) \<longrightarrow>
        lastfm_records lstep [d1, d2] m w = Some (m(k1 \<mapsto> v2), w2))
   \<and> (rssRecord pf c1 e1 = Proceed (ka, va) \<and> rssRecord pf c2 e2 = Proceed (kb, vb)
        \<and> feedName va = feedName vb \<and> c1 \<noteq> c2 \<and> endswith_json c1 \<and> endswith_json c2 \<longrightarrow>
        readRSS pf (Some [(c1, Some (JArr [e1])), (c2, Some (JArr [e2]))])
          = Inr [ka \<mapsto> va, kb \<mapsto> vb] \<and> ka \<noteq> kb)
   \<and> (traktRecord pf mk tget cd c1 e1 w = (Proceed (ka, va), w1)
        \<and> traktRecord pf mk tget cd c2 e2 w1 = (Proceed (kb, vb), w2)
        \<and> feedName va = feedName vb \<and> c1 \<noteq> c2 \<and> endswith_json c1 \<and> endswith_json c2 \<longrightarrow>
        readTraktTV pf mk tget cd (Some [(c1, Some (JArr [e1])), (c2, Some (JArr [e2]))]) w
          = ([ka \<mapsto> va, kb \<mapsto> vb], w2) \<and> ka \<noteq> kb)
   \<and> (goodreadsRecord pf mk gget cd c1 e1 w = (Proceed (ka, va), w1)
        \<and> goodreadsRecord pf mk gget cd c2 e2 w1 = (Proceed (kb, vb), w2)
        \<and> feedName va = feedName vb \<and> c1 \<noteq> c2 \<and> endswith_json c1 \<and> endswith_json c2 \<longrightarrow>
        readGoodreads pf mk gget cd (Some [(c1, Some (JArr [e1])), (c2, Some (JArr [e2]))]) w
          = ([ka \<mapsto> va, kb \<mapsto> vb], w2) \<and> ka \<noteq> kb)
   \<and> (lastfmRecord fuel pf mk lget cd c1 e1 w = Some (Proceed (ka, va), w1)
        \<and> lastfmRecord fuel pf mk lget cd c2 e2 w1 = Some (Proceed (kb, vb), w2)
        \<and> feedName va = feedName vb \<and> endswith_json c1 \<and> endswith_json c2 \<longrightarrow>
        readLastfmArtists fuel pf mk lget cd
            (Some [(c1, Some (JArr [e1])), (c2, Some (JArr [e2]))]) w
          = Some ([kb \<mapsto> vb], w2) \<and> ka = kb)"
proof (intro conjI impI)
  show "k = feedName v" if "lastfmRecord fuel pf mk lget cd cf d w = Some (Proceed (k, v), w')"
    using lastfmRecord_feed[OF that] by simp
  show "k = cf @ ''.'' @ feedName v" if "traktRecord pf mk tget cd cf d w = (Proceed (k, v), w')"
    using traktRecord_feed[OF that] by simp
  show "k = cf @ ''.'' @ feedName v"
    if "goodreadsRecord pf mk gget cd cf d w = (Proceed (k, v), w')"
    using goodreadsRecord_feed[OF that] by simp
  show "k = cf @ ''.'' @ feedName v" if "rssRecord pf cf d = Proceed (k, v)"
    using rssRecord_feed[OF that] by simp
  show "run_records step [d1, d2] m s = (m(k1 \<mapsto> v2), s2)"
    if "step d1 s = (Proceed (k1, v1), s1) \<and> step d2 s1 = (Proceed (k1, v2), s2)"
    using that by simp
  show "lastfm_records lstep [d1, d2] m w = Some (m(k1 \<mapsto> v2), w2)"
    if "lstep d1 w = Some (Proceed (k1, v1), w1) \<and> lstep d2 w1 = Some (Proceed (k1, v2), w2)"
    using that by simp
next
  assume a: "rssRecord pf c1 e1 = Proceed (ka, va) \<and> rssRecord pf c2 e2 = Proceed (kb, vb)
        \<and> feedName va = feedName vb \<and> c1 \<noteq> c2 \<and> endswith_json c1 \<and> endswith_json c2"
  then show "readRSS pf (Some [(c1, Some (JArr [e1])), (c2, Some (JArr [e2]))])
          = Inr [ka \<mapsto> va, kb \<mapsto> vb]"
    by (simp add: readRSS_two_files)
  from a rssRecord_feed[of pf c1 e1 ka va] rssRecord_feed[of pf c2 e2 kb vb]
  show "ka \<noteq> kb" by simp
next
  assume a: "traktRecord pf mk tget cd c1 e1 w = (Proceed (ka, va), w1)
        \<and> traktRecord pf mk tget cd c2 e2 w1 = (Proceed (kb, vb), w2)
        \<and> feedName va = feedName vb \<and> c1 \<noteq> c2 \<and> endswith_json c1 \<and> endswith_json c2"
  then show "readTraktTV pf mk tget cd (Some [(c1, Some (JArr [e1])), (c2, Some (JArr [e2]))]) w
          = ([ka \<mapsto> va, kb \<mapsto> vb], w2)"
    by (simp add: readTraktTV_two_files)
  from a traktRecord_feed[of pf mk tget cd c1 e1 w ka va w1]
    traktRecord_feed[of pf mk tget cd c2 e2 w1 kb vb w2]
  show "ka \<noteq> kb" by simp
next
  assume a: "goodreadsRecord pf mk gget cd c1 e1 w = (Proceed (ka, va), w1)
        \<and> goodreadsRecord pf mk gget cd c2 e2 w1 = (Proceed (kb, vb), w2)
        \<and> feedName va = feedName vb \<and> c1 \<noteq> c2 \<and> endswith_json c1 \<and> endswith_json c2"
  then show "readGoodreads pf mk gget cd (Some [(c1, Some (JArr [e1])), (c2, Some (JArr [e2]))]) w
          = ([ka \<mapsto> va, kb \<mapsto> vb], w2)"
    by (simp add: readGoodreads_two_files)
  from a goodreadsRecord_feed[of pf mk gget cd c1 e1 w ka va w1]
    goodreadsRecord_feed[of pf mk gget cd c2 e2 w1 kb vb w2]
  show "ka \<noteq> kb" by simp
next
  assume a: "lastfmRecord fuel pf mk lget cd c1 e1 w = Some (Proceed (ka, va), w1)
        \<and> lastfmRecord fuel pf mk lget cd c2 e2 w1 = Some (Proceed (kb, vb), w2)
        \<and> feedName va = feedName vb \<and> endswith_json c1 \<and> endswith_json c2"
  from a lastfmRecord_feed[of fuel pf mk lget cd c1 e1 w ka va w1]
    lastfmRecord_feed[of fuel pf mk lget cd c2 e2 w1 kb vb w2]
  show k: "ka = kb" by simp
  from a have "readLastfmArtists fuel pf mk lget cd
            (Some [(c1, Some (JArr [e1])), (c2, Some (JArr [e2]))]) w
          = Some ([ka \<mapsto> va, kb \<mapsto> vb], w2)"
    by (simp add: readLastfmArtists_two_files)
  with k show "readLastfmArtists fuel pf mk lget cd
            (Some [(c1, Some (JArr [e1])), (c2, Some (JArr [e2]))]) w
          = Some ([kb \<mapsto> vb], w2)"
    by simp
qed

lemma rss_news_record:
  "list_all is_ascii c \<Longrightarrow>
   rssRecord sample_float c (rss_element ''news'' []) = Proceed (c @ ''.news'', news_feed)"
  by (simp add: rssRecord_def rss_element_def try_abort_def required_parts_def
      get_feedName_def try_continue_def strip_lower_samples descriptor_rest_def
      get_feedType_def get_feedDestination_def collect_minorFeeds_def field_def
      rss_filters_def try_continue_all_def to_unicode_def news_feed_def)

lemma ascii_ab: "list_all is_ascii ''a.json''" "list_all is_ascii ''b.json''"
  by (simp_all add: is_ascii_def)

text \<open>
  The last part of the claim as stated fails: two descriptor files that both define
  \<^verbatim>\<open>news\<close> leave two entries in the mapping \<^verbatim>\<open>readRSS\<close> returns, not one.
\<close>

theorem registry_two_files_counterexample:
  "readRSS sample_float (Some [(''a.json'', Some (JArr [rss_element ''news'' []])),
                                (''b.json'', Some (JArr [rss_element ''news'' []]))])
     = Inr [''a.json.news'' \<mapsto> news_feed, ''b.json.news'' \<mapsto> news_feed]
   \<and> ''a.json.news'' \<noteq> ''b.json.news''"
  using readRSS_two_files[OF rss_news_record[OF ascii_ab(1)] rss_news_record[OF ascii_ab(2)]
      endswith_a]
  by simp

theorem registry_keys_witness:
  "rssRecord sample_float ''a.json'' (rss_element ''news'' [])
     = Proceed (''a.json.news'', news_feed)
   \<and> ''a.json.news'' = ''a.json'' @ ''.'' @ feedName news_feed"
proof -
  have r: "rssRecord sample_float ''a.json'' (rss_element ''news'' [])
     = Proceed (''a.json.news'', news_feed)"
    using rss_news_record[OF ascii_ab(1)] by simp
  have "rssRecord sample_float ''a.json'' (rss_element ''news'' [])
      = Proceed (''a.json.news'', news_feed) \<longrightarrow>
    ''a.json.news'' = ''a.json'' @ ''.'' @ feedName news_feed"
    by (rule registry_keys[where pf = sample_float and cf = "''a.json''"
      and d = "rss_element ''news'' []" and k = "''a.json.news''" and v = news_feed,
      THEN conjunct2, THEN conjunct2, THEN conjunct2, THEN conjunct1])
  with r have "''a.json.news'' = ''a.json'' @ ''.'' @ feedName news_feed"
    by blast
  with r show ?thesis by blast
qed

section \<open>Properties of the last.fm record loop\<close>


lemma isCacheUpdateNeeded_ok:
  "format_ok f \<Longrightarrow> \<exists>r. fst (isCacheUpdateNeeded f freq w) = Inr r"
  by (simp add: isCacheUpdateNeeded_def modificationDate_def format_name_def time_time_def
      split: option.splits)

lemma read_cache_no_file:
  "no_cache_file w p \<Longrightarrow> path_of f = Some p \<Longrightarrow> read_cache f w = Continue"
  by (auto simp: read_cache_def no_cache_file_def split: sum.splits option.splits node.splits)

lemma fetch_pages_first_fails:
  assumes "\<forall>body. get 1 \<noteq> Response 200 body"
  shows "\<exists>h. fetch_pages (Suc n) get h0 1 2 [] = Some (Inr (h, [])) \<and> h \<noteq> 200"
  using assms by (cases "get 1") auto

lemma makedirs_no_file:
  assumes "makedirs mk q w = Inr w'" "no_cache_file w p"
  shows "no_cache_file w' p"
proof -
  from assms(1) have "w' = w\<lparr>fs := (\<lambda>x. if x \<in> set (ancestors q) \<and> fs w x = None
                              then Some (Dir \<lfloor>clock w (ticks w)\<rfloor>) else fs w x)\<rparr>"
    by (simp add: makedirs_def split: if_splits)
  then have "fs w' p = (if p \<in> set (ancestors q) \<and> fs w p = None
                         then Some (Dir \<lfloor>clock w (ticks w)\<rfloor>) else fs w p)"
    by simp
  then show ?thesis using assms(2) by (simp add: no_cache_file_def)
qed

lemma ensure_cache_dir_no_file:
  assumes "ensure_cache_dir mk q w = (r, w')" "no_cache_file w p"
  shows "no_cache_file w' p"
proof (cases "path_exists w (dirname q)")
  case True
  then show ?thesis using assms by (simp add: ensure_cache_dir_def)
next
  case False
  show ?thesis
  proof (cases "makedirs mk (dirname q) w")
    case (Inl e)
    then show ?thesis using assms False by (simp add: ensure_cache_dir_def)
  next
    case (Inr w1)
    then have "w' = w1" using assms False by (simp add: ensure_cache_dir_def)
    then show ?thesis using makedirs_no_file[OF Inr assms(2)] by simp
  qed
qed

lemma store_or_cache_no_file:
  "h \<noteq> 200 \<Longrightarrow> no_cache_file w p \<Longrightarrow> path_of f = Some p \<Longrightarrow>
   store_or_cache f h subjects w = (Continue, w)"
  by (simp add: store_or_cache_def) (rule read_cache_no_file)

lemma lastfm_subjects_no_cache:
  assumes fp: "fetch_pages fuel (lget (field d ''api_key'' JNull) (field d ''username'' JNull))
                 (- 1) 1 2 [] = Some (Inr (h, out))"
    and h: "h \<noteq> 200"
    and nf: "no_cache_file w p"
  shows "\<exists>fl w'. lastfm_subjects fuel lget d (FStr p) w = Some (fl, w') \<and> (\<forall>a. fl \<noteq> Proceed a)"
proof -
  have "format_ok (FStr p)" by simp
  from isCacheUpdateNeeded_ok[OF this, of default_frequency w]
  obtain r where r: "fst (isCacheUpdateNeeded (FStr p) default_frequency w) = Inr r" ..
  define w1 where "w1 = snd (isCacheUpdateNeeded (FStr p) default_frequency w)"
  have c: "isCacheUpdateNeeded (FStr p) default_frequency w = (Inr r, w1)"
    using r w1_def by (simp add: prod_eq_iff)
  have "fs w1 = fs w" unfolding w1_def by (rule isCacheUpdateNeeded_fs(1))
  then have nf1: "no_cache_file w1 p" using nf by (simp add: no_cache_file_def)
  have pp: "path_of (FStr p) = Some p" by simp
  have rc: "read_cache (FStr p) w1 = Continue" by (rule read_cache_no_file[OF nf1 pp])
  show ?thesis
  proof (cases "r = Some True")
    case False
    have "lastfm_subjects fuel lget d (FStr p) w = Some (Continue, w1)"
      unfolding lastfm_subjects_def c using False rc by simp
    then show ?thesis by simp
  next
    case True
    show ?thesis
    proof (cases "traverse (\<lambda>artist. subscript artist ''name'') out")
      case (Inl e)
      have "lastfm_subjects fuel lget d (FStr p) w = Some (Abort e, w1)"
        unfolding lastfm_subjects_def c fp using True Inl by simp
      then show ?thesis by simp
    next
      case (Inr artists)
      have sc: "store_or_cache (FStr p) h (JArr artists) w1 = (Continue, w1)"
        by (rule store_or_cache_no_file[OF h nf1 pp])
      have "lastfm_subjects fuel lget d (FStr p) w = Some (Continue, w1)"
        unfolding lastfm_subjects_def c fp using True Inr sc by simp
      then show ?thesis by simp
    qed
  qed
qed

lemma lastfm_head_name:
  assumes "lastfm_head pf mk cd cf d w = (Proceed (f, feed), w1)"
  shows "lastfm_cacheFileName cd cf d = Inr f \<and>
    (\<exists>r. ensure_cache_dir mk (name_path f) w = (r, w1))"
  using assms by (auto simp: lastfm_head_def)

lemma lastfm_cacheFileName_FStr:
  "lastfm_cacheFileName cd cf d = Inr f \<Longrightarrow> \<exists>p. f = FStr p"
  by (auto simp: lastfm_cacheFileName_def to_unicode_def split: json.splits if_splits)

lemma lastfmRecord_no_cache:
  assumes fp: "fetch_pages fuel (lget (field d ''api_key'' JNull) (field d ''username'' JNull))
                 (- 1) 1 2 [] = Some (Inr (h, out))"
    and h: "h \<noteq> 200"
    and nf: "\<forall>p. lastfm_cacheFileName cd cf d = Inr (FStr p) \<longrightarrow> no_cache_file w p"
  shows "\<exists>fl w'. lastfmRecord fuel pf mk lget cd cf d w = Some (fl, w') \<and> (\<forall>kv. fl \<noteq> Proceed kv)"
proof (cases "lastfm_head pf mk cd cf d w")
  case (Pair hd w1)
  show ?thesis
  proof (cases hd)
    case (Proceed ff)
    obtain f feed where ff: "ff = (f, feed)" by (cases ff)
    have hh: "lastfm_head pf mk cd cf d w = (Proceed (f, feed), w1)"
      using Pair Proceed ff by simp
    from lastfm_head_name[OF hh]
    obtain r where nm: "lastfm_cacheFileName cd cf d = Inr f"
      and en: "ensure_cache_dir mk (name_path f) w = (r, w1)" by auto
    from lastfm_cacheFileName_FStr[OF nm] obtain p where p: "f = FStr p" ..
    with nm nf have "no_cache_file w p" by simp
    from ensure_cache_dir_no_file[OF en this] have "no_cache_file w1 p" .
    from lastfm_subjects_no_cache[where lget = lget and d = d, OF fp h this]
    obtain fl w' where
      s: "lastfm_subjects fuel lget d (FStr p) w1 = Some (fl, w')" "\<forall>a. fl \<noteq> Proceed a"
      by auto
    have "lastfmRecord fuel pf mk lget cd cf d w =
        Some (case fl of Continue \<Rightarrow> (Continue, w') | Abort e \<Rightarrow> (Abort e, w'))"
      unfolding lastfmRecord_def hh using p s by (cases fl) (simp_all add: then_do_def)
    then show ?thesis using s(2) by (cases fl) simp_all
  next
    case Continue
    then show ?thesis using Pair by (simp add: lastfmRecord_def)
  next
    case (Abort e)
    then show ?thesis using Pair by (simp add: lastfmRecord_def)
  qed
qed

lemma readLastfmArtists_no_cache:
  assumes fp: "fetch_pages fuel (lget (field d ''api_key'' JNull) (field d ''username'' JNull))
                 (- 1) 1 2 [] = Some (Inr (h, out))"
    and h: "h \<noteq> 200"
    and nf: "\<forall>p. lastfm_cacheFileName cd cf d = Inr (FStr p) \<longrightarrow> no_cache_file w p"
    and e: "endswith_json cf"
  shows "\<exists>w'. readLastfmArtists fuel pf mk lget cd (Some [(cf, Some (JArr [d]))]) w
                 = Some (Map.empty, w')"
proof -
  from lastfmRecord_no_cache[where lget = lget and d = d, OF fp h nf, of pf mk]
  obtain fl w' where r: "lastfmRecord fuel pf mk lget cd cf d w = Some (fl, w')"
    "\<forall>kv. fl \<noteq> Proceed kv" by auto
  have "readLastfmArtists fuel pf mk lget cd (Some [(cf, Some (JArr [d]))]) w
                 = Some (Map.empty, w')"
    using r e by (cases fl) (simp_all add: readLastfmArtists_def)
  then show ?thesis ..
qed

lemma rock_parts: "required_parts lastfm_rock required_keys = Proceed ()"
  by (simp add: required_parts_def required_keys_def lastfm_rock_def)

lemma rock_name: "get_feedName lastfm_rock = Proceed ''rock''"
  by (simp add: get_feedName_def lastfm_rock_def try_continue_def strip_lower_samples)

lemma rock_rest:
  "descriptor_rest sample_float lastfm_rock ''rock'' =
     Proceed \<lparr>feedName = ''rock'', feedType = ''music'', feedDestination = ''/d'',
              minorFeeds = [], feedFilters = []\<rparr>"
  by (simp add: descriptor_rest_def get_feedType_def get_feedDestination_def
      collect_minorFeeds_def try_continue_def lastfm_rock_def strip_lower_samples)

lemma server_error_pages:
  "fetch_pages 1 (server_error (field lastfm_rock ''api_key'' JNull)
       (field lastfm_rock ''username'' JNull)) (- 1) 1 2 [] = Some (Inr (500, []))"
  by (simp add: server_error_def)

lemma rock_cacheFileName:
  "lastfm_cacheFileName ''/c'' ''a.json'' lastfm_rock = Inr (FStr ''/c/rock.a.json'')"
  by (simp add: lastfm_cacheFileName_def lastfm_rock_def field_def to_unicode_def
      is_ascii_def)

lemma rock_no_cache:
  "\<forall>p. lastfm_cacheFileName ''/c'' ''a.json'' lastfm_rock = Inr (FStr p)
     \<longrightarrow> no_cache_file w_empty p"
  by (simp add: rock_cacheFileName no_cache_file_def w_empty_def)

lemma cached_or_fetched_no_cache:
  assumes h: "fst fetched \<noteq> 200" and nf: "no_cache_file w p" and pp: "path_of f = Some p"
  shows "cached_or_fetched f fetched w \<noteq> (Proceed x, w')"
proof -
  obtain r w1 where c: "isCacheUpdateNeeded f default_frequency w = (r, w1)"
    by (cases "isCacheUpdateNeeded f default_frequency w")
  have "fs w1 = fs w" using isCacheUpdateNeeded_fs(1)[of f default_frequency w] c by simp
  then have nf1: "no_cache_file w1 p" using nf by (simp add: no_cache_file_def)
  have rc: "read_cache f w1 = Continue" by (rule read_cache_no_file[OF nf1 pp])
  have sc: "store_or_cache f (fst fetched) (snd fetched) w1 = (Continue, w1)"
    by (rule store_or_cache_no_file[OF h nf1 pp])
  show ?thesis
  proof (cases r)
    case (Inl e)
    then show ?thesis by (simp add: cached_or_fetched_def c)
  next
    case (Inr b)
    then show ?thesis by (simp add: cached_or_fetched_def c rc sc)
  qed
qed

lemma trakt_cacheFileName_path:
  "trakt_cacheFileName cd cf name = Inr f \<Longrightarrow> \<exists>p. f = FUnicode p"
  by (auto simp: trakt_cacheFileName_def Let_def split: if_splits)

lemma traktRecord_no_cache:
  assumes h: "fst (fetch_once (tget (field d ''username'' JNull) (field d ''list_name'' JNull)
                      (field d ''api_key'' (JStr [])))) \<noteq> 200"
    and nf: "\<forall>name p. get_feedName d = Proceed name
               \<and> trakt_cacheFileName cd cf name = Inr (FUnicode p) \<longrightarrow> no_cache_file w p"
  shows "traktRecord pf mk tget cd cf d w \<noteq> (Proceed kv, w')"
proof
  assume "traktRecord pf mk tget cd cf d w = (Proceed kv, w')"
  then obtain name f u w1 res w2 where
    n: "get_feedName d = Proceed name"
    and c: "trakt_cacheFileName cd cf name = Inr f"
    and e: "ensure_cache_dir mk (name_path f) w = (Proceed u, w1)"
    and r: "cached_or_fetched f
              (fetch_once (tget (field d ''username'' JNull) (field d ''list_name'' JNull)
                      (field d ''api_key'' (JStr [])))) w1 = (Proceed res, w2)"
    by (auto simp: traktRecord_def)
  from trakt_cacheFileName_path[OF c] obtain p where p: "f = FUnicode p" ..
  with n c nf have "no_cache_file w p" by blast
  from ensure_cache_dir_no_file[OF e this] have "no_cache_file w1 p" .
  from cached_or_fetched_no_cache[OF h this, of f res w2] p r show False by simp
qed

lemma goodreadsRecord_no_cache:
  assumes h: "fst (fetch_xml (gget (field d ''username'' JNull) (field d ''api_key'' JNull)))
                \<noteq> 200"
    and nf: "\<forall>name p. get_feedName d = Proceed name
               \<and> trakt_cacheFileName cd cf name = Inr (FUnicode p) \<longrightarrow> no_cache_file w p"
  shows "goodreadsRecord pf mk gget cd cf d w \<noteq> (Proceed kv, w')"
proof
  assume "goodreadsRecord pf mk gget cd cf d w = (Proceed kv, w')"
  then obtain name f u w1 res w2 where
    n: "get_feedName d = Proceed name"
    and c: "trakt_cacheFileName cd cf name = Inr f"
    and e: "ensure_cache_dir mk (name_path f) w = (Proceed u, w1)"
    and r: "cached_or_fetched f
              (fetch_xml (gget (field d ''username'' JNull) (field d ''api_key'' JNull))) w1
            = (Proceed res, w2)"
    by (auto simp: goodreadsRecord_def)
  from trakt_cacheFileName_path[OF c] obtain p where p: "f = FUnicode p" ..
  with n c nf have "no_cache_file w p" by blast
  from ensure_cache_dir_no_file[OF e this] have "no_cache_file w1 p" .
  from cached_or_fetched_no_cache[OF h this, of f res w2] p r show False by simp
qed

lemma run_single_skipped:
  assumes "\<And>kv w'. step cf d w \<noteq> (Proceed kv, w')" and "endswith_json cf"
  shows "fst (run_files step [(cf, Some (JArr [d]))] Map.empty w) = Map.empty"
proof -
  obtain fl w1 where s: "step cf d w = (fl, w1)" by (cases "step cf d w")
  with assms(1) have "\<forall>kv. fl \<noteq> Proceed kv" by auto
  then show ?thesis using s assms(2) by (cases fl) simp_all
qed

lemma rock_trakt_name:
  "trakt_cacheFileName ''/c'' ''a.json'' ''rock'' = Inr (FUnicode ''/c/rock.a.json'')"
  by (simp add: trakt_cacheFileName_def to_unicode_def is_ascii_def path_join_def)

lemma trakt_error_fetch:
  "fst (fetch_once (trakt_error (field lastfm_rock ''username'' JNull)
          (field lastfm_rock ''list_name'' JNull) (field lastfm_rock ''api_key'' (JStr []))))
     \<noteq> 200"
  by (simp add: trakt_error_def fetch_once_def)

text \<open>
  C2 (as amended). When the fetch of a record ends with a status other than 200 (a
  request that raised counts as \<open>-1\<close>) and there is no cache file for the record, the
  last.fm, trakt and goodreads adapters skip the record: reading the cache raises, the
  handler runs \<^verbatim>\<open>continue\<close>, no entry is stored for the record, and the mapping the
  adapter returns for a descriptor file holding this one record is empty.
\<close>

theorem failed_fetch_without_cache_skips_record:
  "(fetch_pages fuel (lget (field d ''api_key'' JNull) (field d ''username'' JNull))
        (- 1) 1 2 [] = Some (Inr (h, out)) \<and> h \<noteq> 200
      \<and> (\<forall>p. lastfm_cacheFileName cd cf d = Inr (FStr p) \<longrightarrow> no_cache_file w p) \<longrightarrow>
        (\<exists>fl w'. lastfmRecord fuel pf mk lget cd cf d w = Some (fl, w')
            \<and> (\<forall>kv. fl \<noteq> Proceed kv))
        \<and> (endswith_json cf \<longrightarrow>
             (\<exists>w'. readLastfmArtists fuel pf mk lget cd (Some [(cf, Some (JArr [d]))]) w
                     = Some (Map.empty, w'))))
   \<and> (fst (fetch_once (tget (field d ''username'' JNull) (field d ''list_name'' JNull)
                (field d ''api_key'' (JStr [])))) \<noteq> 200
      \<and> (\<forall>name p. get_feedName d = Proceed name
               \<and> trakt_cacheFileName cd cf name = Inr (FUnicode p) \<longrightarrow> no_cache_file w p) \<longrightarrow>
        (\<forall>kv w'. traktRecord pf mk tget cd cf d w \<noteq> (Proceed kv, w'))
        \<and> (endswith_json cf \<longrightarrow>
             fst (readTraktTV pf mk tget cd (Some [(cf, Some (JArr [d]))]) w) = Map.empty))
   \<and> (fst (fetch_xml (gget (field d ''username'' JNull) (field d ''api_key'' JNull))) \<noteq> 200
      \<and> (\<forall>name p. get_feedName d = Proceed name
               \<and> trakt_cacheFileName cd cf name = Inr (FUnicode p) \<longrightarrow> no_cache_file w p) \<longrightarrow>
        (\<forall>kv w'. goodreadsRecord pf mk gget cd cf d w \<noteq> (Proceed kv, w'))
        \<and> (endswith_json cf \<longrightarrow>
             fst (readGoodreads pf mk gget cd (Some [(cf, Some (JArr [d]))]) w) = Map.empty))"
proof (intro conjI impI allI)
  assume a: "fetch_pages fuel (lget (field d ''api_key'' JNull) (field d ''username'' JNull))
        (- 1) 1 2 [] = Some (Inr (h, out)) \<and> h \<noteq> 200
      \<and> (\<forall>p. lastfm_cacheFileName cd cf d = Inr (FStr p) \<longrightarrow> no_cache_file w p)"
  then have fp: "fetch_pages fuel (lget (field d ''api_key'' JNull) (field d ''username'' JNull))
        (- 1) 1 2 [] = Some (Inr (h, out))"
    and h: "h \<noteq> 200"
    and nf: "\<forall>p. lastfm_cacheFileName cd cf d = Inr (FStr p) \<longrightarrow> no_cache_file w p"
    by simp_all
  show "\<exists>fl w'. lastfmRecord fuel pf mk lget cd cf d w = Some (fl, w')
            \<and> (\<forall>kv. fl \<noteq> Proceed kv)"
    by (rule lastfmRecord_no_cache[where lget = lget and d = d, OF fp h nf])
  show "\<exists>w'. readLastfmArtists fuel pf mk lget cd (Some [(cf, Some (JArr [d]))]) w
                     = Some (Map.empty, w')" if "endswith_json cf"
    by (rule readLastfmArtists_no_cache[where lget = lget and d = d, OF fp h nf that])
next
  fix kv w'
  assume a: "fst (fetch_once (tget (field d ''username'' JNull) (field d ''list_name'' JNull)
                (field d ''api_key'' (JStr [])))) \<noteq> 200
      \<and> (\<forall>name p. get_feedName d = Proceed name
               \<and> trakt_cacheFileName cd cf name = Inr (FUnicode p) \<longrightarrow> no_cache_file w p)"
  show "traktRecord pf mk tget cd cf d w \<noteq> (Proceed kv, w')"
    by (rule traktRecord_no_cache[where tget = tget and d = d, OF a[THEN conjunct1] a[THEN conjunct2]])
next
  assume a: "fst (fetch_once (tget (field d ''username'' JNull) (field d ''list_name'' JNull)
                (field d ''api_key'' (JStr [])))) \<noteq> 200
      \<and> (\<forall>name p. get_feedName d = Proceed name
               \<and> trakt_cacheFileName cd cf name = Inr (FUnicode p) \<longrightarrow> no_cache_file w p)"
    and e: "endswith_json cf"
  have "\<And>kv w'. traktRecord pf mk tget cd cf d w \<noteq> (Proceed kv, w')"
    by (rule traktRecord_no_cache[where tget = tget and d = d,
          OF a[THEN conjunct1] a[THEN conjunct2]])
  from run_single_skipped[where step = "traktRecord pf mk tget cd" and cf = cf and d = d
      and w = w, OF this e]
  show "fst (readTraktTV pf mk tget cd (Some [(cf, Some (JArr [d]))]) w) = Map.empty"
    by (simp add: readTraktTV_def)
next
  fix kv w'
  assume a: "fst (fetch_xml (gget (field d ''username'' JNull) (field d ''api_key'' JNull)))
        \<noteq> 200
      \<and> (\<forall>name p. get_feedName d = Proceed name
               \<and> trakt_cacheFileName cd cf name = Inr (FUnicode p) \<longrightarrow> no_cache_file w p)"
  show "goodreadsRecord pf mk gget cd cf d w \<noteq> (Proceed kv, w')"
    by (rule goodreadsRecord_no_cache[where gget = gget and d = d, OF a[THEN conjunct1] a[THEN conjunct2]])
next
  assume a: "fst (fetch_xml (gget (field d ''username'' JNull) (field d ''api_key'' JNull)))
        \<noteq> 200
      \<and> (\<forall>name p. get_feedName d = Proceed name
               \<and> trakt_cacheFileName cd cf name = Inr (FUnicode p) \<longrightarrow> no_cache_file w p)"
    and e: "endswith_json cf"
  have "\<And>kv w'. goodreadsRecord pf mk gget cd cf d w \<noteq> (Proceed kv, w')"
    by (rule goodreadsRecord_no_cache[where gget = gget and d = d,
          OF a[THEN conjunct1] a[THEN conjunct2]])
  from run_single_skipped[where step = "goodreadsRecord pf mk gget cd" and cf = cf and d = d
      and w = w, OF this e]
  show "fst (readGoodreads pf mk gget cd (Some [(cf, Some (JArr [d]))]) w) = Map.empty"
    by (simp add: readGoodreads_def)
qed

text \<open>
  The claim as stated fails. The descriptor \<^verbatim>\<open>rock\<close> in \<^verbatim>\<open>a.json\<close> has every part it needs
  and one template; the server answers 500 and the cache directory holds no file. The
  adapter returns the empty mapping: the record is not there with an empty
  \<^verbatim>\<open>feedFilters\<close>, it is not there at all.
\<close>

theorem lastfm_server_error_counterexample:
  "readLastfmArtists 1 sample_float no_mkfail server_error ''/c''
     (Some [(''a.json'', Some (JArr [lastfm_rock]))]) w_empty
   = Some (Map.empty, w_empty)"
proof -
  define p where "p = ''/c/rock.a.json''"
  have h: "lastfm_head sample_float no_mkfail ''/c'' ''a.json'' lastfm_rock w_empty =
      (Proceed (FStr p, \<lparr>feedName = ''rock'', feedType = ''music'', feedDestination = ''/d'',
              minorFeeds = [], feedFilters = []\<rparr>), w_empty)"
    by (simp add: lastfm_head_def then_do_def rock_parts rock_cacheFileName try_abort_def
        name_path_def rock_name rock_rest p_def ensure_cache_dir_def dirname_rock
        path_exists_def)
      (simp add: w_empty_def)
  have ok: "format_ok (FStr p)" by simp
  have gm: "getmtime w_empty (FStr p) = None" by (simp add: getmtime_def w_empty_def p_def)
  have c: "isCacheUpdateNeeded (FStr p) default_frequency w_empty = (Inr (Some True), w_empty)"
    by (rule isCacheUpdateNeeded_missing[OF ok gm])
  have rc: "read_cache (FStr p) w_empty = Continue"
    by (simp add: read_cache_def format_name_def) (simp add: w_empty_def p_def)
  have s: "lastfm_subjects 1 server_error lastfm_rock (FStr p) w_empty =
      Some (Continue, w_empty)"
    unfolding lastfm_subjects_def c server_error_pages by (simp add: store_or_cache_def rc)
  have r: "lastfmRecord 1 sample_float no_mkfail server_error ''/c'' ''a.json'' lastfm_rock
      w_empty = Some (Continue, w_empty)"
    by (simp add: lastfmRecord_def h s[unfolded One_nat_def] then_do_def)
  show ?thesis by (simp add: readLastfmArtists_def endswith_a r[unfolded One_nat_def])
qed

theorem failed_fetch_without_cache_skips_record_witness:
  "fetch_pages 1 (server_error (field lastfm_rock ''api_key'' JNull)
       (field lastfm_rock ''username'' JNull)) (- 1) 1 2 [] = Some (Inr (500, []))
   \<and> lastfm_cacheFileName ''/c'' ''a.json'' lastfm_rock = Inr (FStr ''/c/rock.a.json'')
   \<and> get_feedName lastfm_rock = Proceed ''rock''
   \<and> trakt_cacheFileName ''/c'' ''a.json'' ''rock'' = Inr (FUnicode ''/c/rock.a.json'')
   \<and> no_cache_file w_empty ''/c/rock.a.json''
   \<and> endswith_json ''a.json''
   \<and> (\<exists>fl w'. lastfmRecord 1 sample_float no_mkfail server_error ''/c'' ''a.json''
                  lastfm_rock w_empty = Some (fl, w') \<and> (\<forall>kv. fl \<noteq> Proceed kv))
   \<and> (\<exists>w'. readLastfmArtists 1 sample_float no_mkfail server_error ''/c''
               (Some [(''a.json'', Some (JArr [lastfm_rock]))]) w_empty
             = Some (Map.empty, w'))
   \<and> fst (readTraktTV sample_float no_mkfail trakt_error ''/c''
            (Some [(''a.json'', Some (JArr [lastfm_rock]))]) w_empty) = Map.empty"
proof -
  have ne: "(500::int) \<noteq> 200" by simp
  have c: "no_cache_file w_empty ''/c/rock.a.json''"
    by (simp add: no_cache_file_def w_empty_def)
  have tn: "\<forall>name p. get_feedName lastfm_rock = Proceed name
               \<and> trakt_cacheFileName ''/c'' ''a.json'' name = Inr (FUnicode p)
             \<longrightarrow> no_cache_file w_empty p"
    using c by (simp add: rock_name rock_trakt_name)
  note t = failed_fetch_without_cache_skips_record[where lget = server_error
      and d = lastfm_rock and fuel = 1 and cd = "''/c''" and cf = "''a.json''"
      and w = w_empty and pf = sample_float and mk = no_mkfail and tget = trakt_error
      and h = 500 and out = "[]"]
  note l = t[THEN conjunct1, THEN mp, OF conjI[OF server_error_pages conjI[OF ne rock_no_cache]]]
  note k = t[THEN conjunct2, THEN conjunct1, THEN mp, OF conjI[OF trakt_error_fetch tn]]
  have a: "\<exists>fl w'. lastfmRecord 1 sample_float no_mkfail server_error ''/c'' ''a.json''
                  lastfm_rock w_empty = Some (fl, w') \<and> (\<forall>kv. fl \<noteq> Proceed kv)"
    by (rule l[THEN conjunct1])
  have b: "\<exists>w'. readLastfmArtists 1 sample_float no_mkfail server_error ''/c''
               (Some [(''a.json'', Some (JArr [lastfm_rock]))]) w_empty
             = Some (Map.empty, w')"
    by (rule l[THEN conjunct2, THEN mp, OF endswith_a(1)])
  have e: "fst (readTraktTV sample_float no_mkfail trakt_error ''/c''
            (Some [(''a.json'', Some (JArr [lastfm_rock]))]) w_empty) = Map.empty"
    by (rule k[THEN conjunct2, THEN mp, OF endswith_a(1)])
  from a b c e server_error_pages rock_cacheFileName rock_name rock_trakt_name endswith_a(1)
  show ?thesis by blast
qed

lemma rock_guard_race:
  "ensure_cache_dir lost_race ''/c/rock.a.json'' w_bare = (Continue, w_bare)"
  by (simp add: ensure_cache_dir_def dirname_rock path_exists_def w_bare_def makedirs_def
      lost_race_def)

lemma rock_head_race:
  "lastfm_head sample_float lost_race ''/c'' ''a.json'' lastfm_rock w_bare = (Continue, w_bare)"
  by (simp add: lastfm_head_def then_do_def rock_parts rock_cacheFileName try_abort_def
      name_path_def rock_guard_race)

lemma rock_run_race:
  "readLastfmArtists 1 sample_float lost_race one_page ''/c''
     (Some [(''a.json'', Some (JArr [lastfm_rock]))]) w_bare = Some (Map.empty, w_bare)"
  by (simp add: readLastfmArtists_def endswith_a lastfmRecord_def rock_head_race)

lemma ancestors_c: "ancestors ''/c'' = [''/c'']"
  by code_simp

lemma one_page_pages:
  "fetch_pages 1 (one_page k u) (- 1) 1 2 [] =
     Some (Inr (200, [JObj [(''name'', JStr ''ABBA'')]]))"
proof -
  have "py_int ''1'' = Some 1" by code_simp
  then show ?thesis by (simp add: one_page_def parse_page_def or_ValueError_def)
qed

lemma norm_abba: "replace_amp (strip (lower ''ABBA'')) = ''abba''"
  by code_simp

lemma rock_filters:
  "lastfm_filters (field lastfm_rock ''filters'' (JArr [])) (JArr [JStr ''ABBA'']) =
     Inr [[\<lparr>key = ''artist'', val = JStr ''abba'', exclude = False\<rparr>]]"
proof -
  have "field lastfm_rock ''filters'' (JArr []) = JArr [template_json [] []]"
    by (simp add: field_def lastfm_rock_def)
  then show ?thesis
    using lastfm_filters_templates[of "[([], [])]" "[''ABBA'']"] by (simp add: norm_abba)
qed

lemma rock_run_made:
  "map_option (\<lambda>r. (fst r ''rock'', fs (snd r) ''/c/rock.a.json''))
     (readLastfmArtists 1 sample_float no_mkfail one_page ''/c''
        (Some [(''a.json'', Some (JArr [lastfm_rock]))]) w_bare)
   = Some (Some \<lparr>feedName = ''rock'', feedType = ''music'', feedDestination = ''/d'',
                  minorFeeds = [],
                  feedFilters = [[\<lparr>key = ''artist'', val = JStr ''abba'', exclude = False\<rparr>]]\<rparr>,
           Some (File 21600 (Some (JArr [JStr ''ABBA'']))))"
proof -
  define p where "p = ''/c/rock.a.json''"
  define w1 where "w1 = snd (ensure_cache_dir no_mkfail p w_bare)"
  have g: "ensure_cache_dir no_mkfail p w_bare = (Proceed (), w1)"
    unfolding w1_def p_def
    by (simp add: ensure_cache_dir_def dirname_rock path_exists_def w_bare_def makedirs_def
        no_mkfail_def)
  have w1: "fs w1 ''/c'' = Some (Dir 21600)" "fs w1 p = None" "ticks w1 = 0"
    "clock w1 = (\<lambda>n. 21600)"
    unfolding w1_def p_def
    by (simp_all add: ensure_cache_dir_def dirname_rock path_exists_def w_bare_def makedirs_def
        no_mkfail_def ancestors_c)
  have h: "lastfm_head sample_float no_mkfail ''/c'' ''a.json'' lastfm_rock w_bare =
      (Proceed (FStr p, \<lparr>feedName = ''rock'', feedType = ''music'', feedDestination = ''/d'',
              minorFeeds = [], feedFilters = []\<rparr>), w1)"
    using g
    by (simp add: lastfm_head_def then_do_def rock_parts rock_cacheFileName try_abort_def
        name_path_def rock_name rock_rest p_def)
  have ok: "format_ok (FStr p)" by simp
  have pp: "path_of (FStr p) = Some p" by simp
  have gm: "getmtime w1 (FStr p) = None" by (simp add: getmtime_def w1)
  have c: "isCacheUpdateNeeded (FStr p) default_frequency w1 = (Inr (Some True), w1)"
    by (rule isCacheUpdateNeeded_missing[OF ok gm])
  then have st: "fst (isCacheUpdateNeeded (FStr p) default_frequency w1) = Inr (Some True)"
    by simp
  have wr: "p \<noteq> []" "\<not> is_dir (fs w1 p)" "dirname p = [] \<or> is_dir (fs w1 (dirname p))"
    using w1 by (simp_all add: p_def dirname_rock)
  define w2 where "w2 = w1\<lparr>fs := (fs w1)(p \<mapsto> File 21600 (Some (JArr [JStr ''ABBA''])))\<rparr>"
  have u: "updateCacheFile (FStr p) (JArr [JStr ''ABBA'']) default_frequency w1 = (Inr (), w2)"
    using updateCacheFile_writes[OF ok pp st wr, of "JArr [JStr ''ABBA'']"] c
    by (simp add: w2_def w1)
  have s: "lastfm_subjects 1 one_page lastfm_rock (FStr p) w1 =
      Some (Proceed (JArr [JStr ''ABBA'']), w2)"
    unfolding lastfm_subjects_def c one_page_pages by (simp add: store_or_cache_def u)
  have r: "lastfmRecord 1 sample_float no_mkfail one_page ''/c'' ''a.json'' lastfm_rock w_bare =
      Some (Proceed (''rock'', \<lparr>feedName = ''rock'', feedType = ''music'',
              feedDestination = ''/d'', minorFeeds = [],
              feedFilters = [[\<lparr>key = ''artist'', val = JStr ''abba'', exclude = False\<rparr>]]\<rparr>),
            w2)"
    by (simp add: lastfmRecord_def h s[unfolded One_nat_def] then_do_def rock_filters
        try_continue_all_def)
  have "readLastfmArtists 1 sample_float no_mkfail one_page ''/c''
        (Some [(''a.json'', Some (JArr [lastfm_rock]))]) w_bare =
      Some ([''rock'' \<mapsto> \<lparr>feedName = ''rock'', feedType = ''music'',
              feedDestination = ''/d'', minorFeeds = [],
              feedFilters = [[\<lparr>key = ''artist'', val = JStr ''abba'', exclude = False\<rparr>]]\<rparr>],
            w2)"
    by (simp add: readLastfmArtists_def endswith_a r[unfolded One_nat_def])
  then show ?thesis by (simp add: w2_def p_def)
qed

text \<open>
  C7. The guard the adapters put before the fetch does not let a record through a race for
  its cache directory: with the directory missing when \<^verbatim>\<open>os.path.exists\<close> looks and made by
  another process before \<^verbatim>\<open>os.makedirs\<close> runs, \<^verbatim>\<open>os.makedirs\<close> raises, the guard runs
  \<^verbatim>\<open>continue\<close>, and the last.fm adapter returns no entry for the record \<^verbatim>\<open>rock\<close> of
  \<^verbatim>\<open>a.json\<close> and writes no cache file. The same run without the race makes the directory,
  writes the fetched list to the cache file and returns the entry.
\<close>

theorem makedirs_race_drops_record:
  "\<not> path_exists w_bare (dirname ''/c/rock.a.json'')
   \<and> ensure_cache_dir lost_race ''/c/rock.a.json'' w_bare = (Continue, w_bare)
   \<and> readLastfmArtists 1 sample_float lost_race one_page ''/c''
        (Some [(''a.json'', Some (JArr [lastfm_rock]))]) w_bare = Some (Map.empty, w_bare)
   \<and> map_option (\<lambda>r. (fst r ''rock'', fs (snd r) ''/c/rock.a.json''))
        (readLastfmArtists 1 sample_float no_mkfail one_page ''/c''
           (Some [(''a.json'', Some (JArr [lastfm_rock]))]) w_bare)
      = Some (Some \<lparr>feedName = ''rock'', feedType = ''music'', feedDestination = ''/d'',
                     minorFeeds = [],
                     feedFilters =
                       [[\<lparr>key = ''artist'', val = JStr ''abba'', exclude = False\<rparr>]]\<rparr>,
              Some (File 21600 (Some (JArr [JStr ''ABBA'']))))"
proof (intro conjI)
  show "\<not> path_exists w_bare (dirname ''/c/rock.a.json'')"
    by (simp add: dirname_rock path_exists_def w_bare_def)
qed (rule rock_guard_race rock_run_race rock_run_made)+

end
